theory Spec2Isabelle
  imports Main "HOL-Library.Word"
begin

section \<open>The multisig lock script \<open>secp256k1_blake160_multisig_all.c\<close>\<close>

text \<open>
  A shallow embedding of \<open>main\<close> of \<open>src/c/secp256k1_blake160_multisig_all.c\<close>.
  The host's system calls, the molecule reader, blake2b and secp256k1 are declared in
  headers that are not part of the source file; they are taken as the fields of an
  environment record, so every theorem below holds for all of their implementations.
  The C arrays of \<open>main\<close> are modelled explicitly, since the script keeps pointers into
  them and writes through those pointers.
\<close>

subsection \<open>Constants of the source (lines 6-28)\<close>

abbreviation ERROR_ARGUMENTS_LEN :: int where "ERROR_ARGUMENTS_LEN \<equiv> -1"
abbreviation ERROR_ENCODING :: int where "ERROR_ENCODING \<equiv> -2"
abbreviation ERROR_SYSCALL :: int where "ERROR_SYSCALL \<equiv> -3"
abbreviation ERROR_SECP_RECOVER_PUBKEY :: int where "ERROR_SECP_RECOVER_PUBKEY \<equiv> -11"
abbreviation ERROR_SECP_PARSE_SIGNATURE :: int where "ERROR_SECP_PARSE_SIGNATURE \<equiv> -12"
abbreviation ERROR_SECP_SERIALIZE_PUBKEY :: int where "ERROR_SECP_SERIALIZE_PUBKEY \<equiv> -13"
abbreviation ERROR_WITNESS_LEN :: int where "ERROR_WITNESS_LEN \<equiv> -21"
abbreviation ERROR_INVALID_PUBKEYS_CNT :: int where "ERROR_INVALID_PUBKEYS_CNT \<equiv> -22"
abbreviation ERROR_INVALID_THRESHOLD :: int where "ERROR_INVALID_THRESHOLD \<equiv> -23"
abbreviation ERROR_INVALID_REQUIRE_FIRST_N :: int where "ERROR_INVALID_REQUIRE_FIRST_N \<equiv> -24"
abbreviation ERROR_MULTSIG_SCRIPT_HASH :: int where "ERROR_MULTSIG_SCRIPT_HASH \<equiv> -31"
abbreviation ERROR_VERIFICATION :: int where "ERROR_VERIFICATION \<equiv> -32"

abbreviation BLAKE2B_BLOCK_SIZE :: nat where "BLAKE2B_BLOCK_SIZE \<equiv> 32"
abbreviation BLAKE160_SIZE :: nat where "BLAKE160_SIZE \<equiv> 20"
abbreviation PUBKEY_SIZE :: nat where "PUBKEY_SIZE \<equiv> 33"
abbreviation TEMP_SIZE :: nat where "TEMP_SIZE \<equiv> 1024"
abbreviation RECID_INDEX :: nat where "RECID_INDEX \<equiv> 64"
abbreviation MAX_WITNESS_SIZE :: nat where "MAX_WITNESS_SIZE \<equiv> 32768"
abbreviation MAX_SCRIPT_SIZE :: nat where "MAX_SCRIPT_SIZE \<equiv> 32768"
abbreviation SIGNATURE_SIZE :: nat where "SIGNATURE_SIZE \<equiv> 65"
abbreviation FLAGS_SIZE :: nat where "FLAGS_SIZE \<equiv> 4"

subsection \<open>Bytes, arrays and the outcome of a run\<close>

type_synonym byte = "8 word"

text \<open>
  A C array of capacity \<open>cap\<close> is modelled by the list of the bytes written to its
  front so far (its length never exceeds \<open>cap\<close>). An access outside the capacity is
  undefined behaviour in C, and the bytes of an automatic array that were never written
  are indeterminate: the model stops with a \<open>Fault\<close> at either, instead of inventing
  a value.
\<close>

datatype fault = OutOfBounds | Indeterminate

datatype outcome = Exit int | Fault fault

type_synonym 'a res = "outcome + 'a"

text \<open>A callee is handed a pointer to the array and writes \<open>bs\<close> at its front.\<close>

definition store :: "nat \<Rightarrow> byte list \<Rightarrow> byte list \<Rightarrow> byte list res" where
  "store cap bs buf =
     (if cap < length bs then Inl (Fault OutOfBounds)
      else Inr (bs @ drop (length bs) buf))"

text \<open>Reading the \<open>n\<close> bytes at offset \<open>off\<close>.\<close>

definition fetch :: "nat \<Rightarrow> byte list \<Rightarrow> nat \<Rightarrow> nat \<Rightarrow> byte list res" where
  "fetch cap buf off n =
     (if cap < off + n then Inl (Fault OutOfBounds)
      else if length buf < off + n then Inl (Fault Indeterminate)
      else Inr (take n (drop off buf)))"

text \<open>Reading the single element \<open>buf[i]\<close>.\<close>

definition index :: "nat \<Rightarrow> byte list \<Rightarrow> nat \<Rightarrow> byte res" where
  "index cap buf i =
     (if cap \<le> i then Inl (Fault OutOfBounds)
      else if length buf \<le> i then Inl (Fault Indeterminate)
      else Inr (buf ! i))"

text \<open>
  \<open>memset(buf + off, c, n)\<close>. A write that would leave an unwritten gap before \<open>off\<close>
  cannot be represented by a written front and is a \<open>Fault\<close>; \<open>main\<close> only calls
  \<open>memset\<close> on bytes it has read before.
\<close>

definition memset :: "nat \<Rightarrow> byte list \<Rightarrow> nat \<Rightarrow> byte \<Rightarrow> nat \<Rightarrow> byte list res" where
  "memset cap buf off c n =
     (if cap < off + n then Inl (Fault OutOfBounds)
      else if length buf < off then Inl (Fault Indeterminate)
      else Inr (take off buf @ replicate n c @ drop (off + n) buf))"

text \<open>
  \<open>memcmp\<close> over two byte sequences of the same length: the difference of the first
  pair of bytes that differ, read as unsigned values, and 0 when there is none.
\<close>

fun memcmp :: "byte list \<Rightarrow> byte list \<Rightarrow> int" where
  "memcmp (x # xs) (y # ys) = (if x = y then memcmp xs ys else uint x - uint y)"
| "memcmp _ _ = 0"

subsection \<open>The external collaborators\<close>

text \<open>
  A system call \<open>ckb_load_*(addr, &len, ...)\<close> has three effects the script can see: its
  return code, the bytes it wrote at \<open>addr\<close>, and the value it left in \<open>len\<close>. The
  script compares the return code with \<open>CKB_SUCCESS\<close> and \<open>CKB_INDEX_OUT_OF_BOUND\<close>
  only; their numeric values are in the absent header.
\<close>

datatype ckb_ret = CKB_SUCCESS | CKB_INDEX_OUT_OF_BOUND | CKB_FAILURE int

record syscall_res =
  ret :: ckb_ret
  stored :: "byte list"
  len_out :: nat

text \<open>
  The molecule reader works on positions: a pointer, here the offset into the array the
  position lies in, and a size.
\<close>

record mol_pos =
  ptr :: nat
  psize :: nat

record mol_read_res =
  code :: int
  pos :: mol_pos

datatype mol_field = MOL_Script_args | MOL_WitnessArgs_lock

text \<open>
  The environment. \<open>'h\<close> is the blake2b state, \<open>'s\<close> a parsed recoverable signature,
  \<open>'p\<close> a recovered public key. The first argument of a system call is the value of
  \<open>len\<close> on entry, the second of \<open>ckb_load_witness\<close> is the index. The reader's
  functions get the array their position points into.
\<close>

record ('h, 's, 'p) env =
  ckb_load_script :: "nat \<Rightarrow> syscall_res"
  ckb_load_witness :: "nat \<Rightarrow> nat \<Rightarrow> syscall_res"
  ckb_load_tx_hash :: "nat \<Rightarrow> syscall_res"
  mol_cut :: "byte list \<Rightarrow> mol_pos \<Rightarrow> mol_field \<Rightarrow> mol_read_res"
  mol_cut_bytes :: "byte list \<Rightarrow> mol_pos \<Rightarrow> mol_read_res"
  blake2b_init :: "nat \<Rightarrow> 'h"
  blake2b_update :: "'h \<Rightarrow> byte list \<Rightarrow> 'h"
  blake2b_final :: "'h \<Rightarrow> nat \<Rightarrow> byte list"
  secp256k1_initialize :: int
  secp256k1_parse_compact :: "byte list \<Rightarrow> byte \<Rightarrow> int \<times> 's"
  secp256k1_recover :: "'s \<Rightarrow> byte list \<Rightarrow> int \<times> 'p"
  secp256k1_serialize :: "'p \<Rightarrow> nat \<Rightarrow> int \<times> byte list"

subsection \<open>Load args (lines 75-95)\<close>

definition load_args :: "('h, 's, 'p) env \<Rightarrow> (byte list \<times> mol_pos) res" where
  "load_args e =
     (let r = ckb_load_script e MAX_SCRIPT_SIZE in
      case store MAX_SCRIPT_SIZE (stored r) [] of
        Inl f \<Rightarrow> Inl f
      | Inr script \<Rightarrow>
          if ret r \<noteq> CKB_SUCCESS then Inl (Exit ERROR_SYSCALL)
          else
            let script_pos = \<lparr>ptr = 0, psize = len_out r\<rparr>;
                args_res = mol_cut e script script_pos MOL_Script_args
            in if code args_res \<noteq> 0 then Inl (Exit ERROR_ENCODING)
               else
                 let args_bytes_res = mol_cut_bytes e script (pos args_res)
                 in if code args_bytes_res \<noteq> 0 then Inl (Exit ERROR_ENCODING)
                    else if psize (pos args_bytes_res) \<noteq> BLAKE160_SIZE
                      then Inl (Exit ERROR_ARGUMENTS_LEN)
                    else Inr (script, pos args_bytes_res))"

subsection \<open>Load witness of first input (lines 30-47 and 97-115)\<close>

definition extract_witness_lock ::
  "('h, 's, 'p) env \<Rightarrow> byte list \<Rightarrow> nat \<Rightarrow> int + mol_read_res" where
  "extract_witness_lock e witness len =
     (let witness_pos = \<lparr>ptr = 0, psize = len\<rparr>;
          lock_res = mol_cut e witness witness_pos MOL_WitnessArgs_lock
      in if code lock_res \<noteq> 0 then Inl ERROR_ENCODING
         else
           let lock_bytes_res = mol_cut_bytes e witness (pos lock_res)
           in if code lock_bytes_res \<noteq> 0 then Inl ERROR_ENCODING
              else Inr lock_bytes_res)"

text \<open>
  The result: the \<open>witness\<close> array, \<open>witness_len\<close>, the position
  \<open>lock_bytes_res.pos\<close> (a pointer into \<open>witness\<close>) and the array \<open>lock_bytes\<close>, a
  copy of the bytes at that position.
\<close>

record first_witness =
  witness :: "byte list"
  witness_len :: nat
  lock_pos :: mol_pos
  lock_bytes :: "byte list"

definition load_witness :: "('h, 's, 'p) env \<Rightarrow> first_witness res" where
  "load_witness e =
     (let r = ckb_load_witness e MAX_WITNESS_SIZE 0 in
      case store MAX_WITNESS_SIZE (stored r) [] of
        Inl f \<Rightarrow> Inl f
      | Inr w \<Rightarrow>
          if ret r \<noteq> CKB_SUCCESS then Inl (Exit ERROR_SYSCALL)
          else
            (case extract_witness_lock e w (len_out r) of
               Inl c \<Rightarrow> Inl (Exit ERROR_ENCODING)
             | Inr lock_bytes_res \<Rightarrow>
                 if psize (pos lock_bytes_res) < FLAGS_SIZE then Inl (Exit ERROR_WITNESS_LEN)
                 else
                   (case fetch MAX_WITNESS_SIZE w (ptr (pos lock_bytes_res))
                           (psize (pos lock_bytes_res)) of
                      Inl f \<Rightarrow> Inl f
                    | Inr lb \<Rightarrow>
                        Inr \<lparr>witness = w, witness_len = len_out r,
                             lock_pos = pos lock_bytes_res, lock_bytes = lb\<rparr>)))"

subsection \<open>Get flags (lines 117-138)\<close>

record flags =
  pubkeys_cnt :: byte
  threshold :: byte
  require_first_n :: byte
  multisig_script_len :: nat
  signatures_len :: nat

definition get_flags :: "byte list \<Rightarrow> flags res" where
  "get_flags lb =
     (case index (length lb) lb 3 of Inl f \<Rightarrow> Inl f | Inr n \<Rightarrow>
     (case index (length lb) lb 2 of Inl f \<Rightarrow> Inl f | Inr m \<Rightarrow>
     (case index (length lb) lb 1 of Inl f \<Rightarrow> Inl f | Inr r \<Rightarrow>
        if n = 0 then Inl (Exit ERROR_INVALID_PUBKEYS_CNT)
        else if m > n then Inl (Exit ERROR_INVALID_THRESHOLD)
        else
          let m = (if m = 0 then n else m)
          in if r > m then Inl (Exit ERROR_INVALID_REQUIRE_FIRST_N)
             else
               let msl = FLAGS_SIZE + PUBKEY_SIZE * unat n;
                   sl = SIGNATURE_SIZE * unat m;
                   required_lock_len = msl + sl
               in if length lb \<noteq> required_lock_len then Inl (Exit ERROR_WITNESS_LEN)
                  else Inr \<lparr>pubkeys_cnt = n, threshold = m, require_first_n = r,
                            multisig_script_len = msl, signatures_len = sl\<rparr>)))"

subsection \<open>Check multisig script hash (lines 140-148)\<close>

text \<open>The result is the \<open>temp\<close> array, which now holds the hash.\<close>

definition check_script_hash ::
  "('h, 's, 'p) env \<Rightarrow> byte list \<Rightarrow> byte list \<Rightarrow> mol_pos \<Rightarrow> byte list \<Rightarrow> nat \<Rightarrow> byte list res"
  where
  "check_script_hash e temp script args_pos lb msl =
     (case fetch (length lb) lb 0 msl of Inl f \<Rightarrow> Inl f | Inr policy \<Rightarrow>
      let ctx = blake2b_update e (blake2b_init e BLAKE2B_BLOCK_SIZE) policy in
     (case store TEMP_SIZE (blake2b_final e ctx BLAKE2B_BLOCK_SIZE) temp of
        Inl f \<Rightarrow> Inl f
      | Inr temp1 \<Rightarrow>
     (case fetch MAX_SCRIPT_SIZE script (ptr args_pos) BLAKE160_SIZE of
        Inl f \<Rightarrow> Inl f
      | Inr args \<Rightarrow>
     (case fetch TEMP_SIZE temp1 0 BLAKE160_SIZE of
        Inl f \<Rightarrow> Inl f
      | Inr h \<Rightarrow>
          if memcmp args h \<noteq> 0 then Inl (Exit ERROR_MULTSIG_SCRIPT_HASH)
          else Inr temp1))))"

subsection \<open>Load tx hash (lines 150-156)\<close>

definition load_tx_hash :: "('h, 's, 'p) env \<Rightarrow> byte list res" where
  "load_tx_hash e =
     (let r = ckb_load_tx_hash e BLAKE2B_BLOCK_SIZE in
      case store BLAKE2B_BLOCK_SIZE (stored r) [] of
        Inl f \<Rightarrow> Inl f
      | Inr tx_hash \<Rightarrow>
          if ret r \<noteq> CKB_SUCCESS then Inl (Exit ERROR_SYSCALL) else Inr tx_hash)"

subsection \<open>Prepare sign message (lines 158-182)\<close>

text \<open>
  The loop over the other witnesses of the group. It ends when the host answers
  \<open>CKB_INDEX_OUT_OF_BOUND\<close> or with another failure; a host that answers
  \<open>CKB_SUCCESS\<close> at every index keeps it running, which is the value \<open>None\<close>.
\<close>

partial_function (option) digest_other_witnesses ::
  "('h, 's, 'p) env \<Rightarrow> 'h \<Rightarrow> byte list \<Rightarrow> nat \<Rightarrow> ('h \<times> byte list) res option" where
  "digest_other_witnesses e ctx temp i =
     (let r = ckb_load_witness e MAX_WITNESS_SIZE i in
      case store TEMP_SIZE (stored r) temp of
        Inl f \<Rightarrow> Some (Inl f)
      | Inr temp1 \<Rightarrow>
          if ret r = CKB_INDEX_OUT_OF_BOUND then Some (Inr (ctx, temp1))
          else if ret r \<noteq> CKB_SUCCESS then Some (Inl (Exit ERROR_SYSCALL))
          else
            (case fetch TEMP_SIZE temp1 0 (len_out r) of
               Inl f \<Rightarrow> Some (Inl f)
             | Inr bs \<Rightarrow> digest_other_witnesses e (blake2b_update e ctx bs) temp1 (i + 1)))"

text \<open>
  The result: the \<open>witness\<close> array after the signatures were set to zero in it, the
  \<open>temp\<close> array and the \<open>message\<close> array.
\<close>

definition prepare_sign_message ::
  "('h, 's, 'p) env \<Rightarrow> byte list \<Rightarrow> byte list \<Rightarrow> first_witness \<Rightarrow> flags \<Rightarrow>
     (byte list \<times> byte list \<times> byte list) res option" where
  "prepare_sign_message e temp tx_hash fw fl =
     (case fetch BLAKE2B_BLOCK_SIZE tx_hash 0 BLAKE2B_BLOCK_SIZE of
        Inl f \<Rightarrow> Some (Inl f)
      | Inr th \<Rightarrow>
     (case memset MAX_WITNESS_SIZE (witness fw)
             (ptr (lock_pos fw) + multisig_script_len fl) 0 (signatures_len fl) of
        Inl f \<Rightarrow> Some (Inl f)
      | Inr w \<Rightarrow>
     (case fetch MAX_WITNESS_SIZE w 0 (witness_len fw) of
        Inl f \<Rightarrow> Some (Inl f)
      | Inr first \<Rightarrow>
          let ctx = blake2b_update e
                      (blake2b_update e (blake2b_init e BLAKE2B_BLOCK_SIZE) th) first
          in
     (case digest_other_witnesses e ctx temp 1 of
        None \<Rightarrow> None
      | Some (Inl f) \<Rightarrow> Some (Inl f)
      | Some (Inr (ctx1, temp1)) \<Rightarrow>
     (case store BLAKE2B_BLOCK_SIZE (blake2b_final e ctx1 BLAKE2B_BLOCK_SIZE) [] of
        Inl f \<Rightarrow> Some (Inl f)
      | Inr message \<Rightarrow> Some (Inr (w, temp1, message)))))))"

subsection \<open>Verify threshold signatures (lines 184-243)\<close>

text \<open>
  Check pubkeys (lines 217-230): the scan over the public keys of the policy for one
  serialized candidate, which is in \<open>temp\<close>. The result is \<open>matched\<close> and the array
  \<open>used_signatures\<close>, whose capacity is its length.
\<close>

function check_pubkeys ::
  "byte list \<Rightarrow> byte list \<Rightarrow> nat \<Rightarrow> byte list \<Rightarrow> nat \<Rightarrow> (byte \<times> byte list) res" where
  "check_pubkeys lb temp cnt used i =
     (if i < cnt then
        (case index (length used) used i of
           Inl f \<Rightarrow> Inl f
         | Inr u \<Rightarrow>
             if u = 1 then check_pubkeys lb temp cnt used (i + 1)
             else
               (case fetch (length lb) lb (FLAGS_SIZE + i * PUBKEY_SIZE) PUBKEY_SIZE of
                  Inl f \<Rightarrow> Inl f
                | Inr pk \<Rightarrow>
               (case fetch TEMP_SIZE temp 0 PUBKEY_SIZE of
                  Inl f \<Rightarrow> Inl f
                | Inr cand \<Rightarrow>
                    if memcmp pk cand \<noteq> 0 then check_pubkeys lb temp cnt used (i + 1)
                    else Inr (1, used[i := 1]))))
      else Inr (0, used))"
  by pat_completeness auto
termination
  by (relation "measure (\<lambda>(lb, temp, cnt, used, i). cnt - i)") auto

text \<open>
  One round of the loop over the signatures (lines 196-234): load signature \<open>i\<close> from
  \<open>lock_bytes\<close>, recover and serialize its public key into \<open>temp\<close>, check pubkeys.
\<close>

definition verify_signature ::
  "('h, 's, 'p) env \<Rightarrow> byte list \<Rightarrow> byte list \<Rightarrow> flags \<Rightarrow> byte list \<Rightarrow> byte list \<Rightarrow> nat \<Rightarrow>
     (byte list \<times> byte list) res" where
  "verify_signature e lb message fl temp used i =
     (let signature_offset = multisig_script_len fl + i * SIGNATURE_SIZE in
      case fetch (length lb) lb signature_offset RECID_INDEX of
        Inl f \<Rightarrow> Inl f
      | Inr input64 \<Rightarrow>
     (case index (length lb) lb (signature_offset + RECID_INDEX) of
        Inl f \<Rightarrow> Inl f
      | Inr recid \<Rightarrow>
          let parsed = secp256k1_parse_compact e input64 recid in
          if fst parsed = 0 then Inl (Exit ERROR_SECP_PARSE_SIGNATURE)
          else
     (case fetch BLAKE2B_BLOCK_SIZE message 0 BLAKE2B_BLOCK_SIZE of
        Inl f \<Rightarrow> Inl f
      | Inr msg \<Rightarrow>
          let recovered = secp256k1_recover e (snd parsed) msg in
          if fst recovered \<noteq> 1 then Inl (Exit ERROR_SECP_RECOVER_PUBKEY)
          else
            let serialized = secp256k1_serialize e (snd recovered) PUBKEY_SIZE in
     (case store TEMP_SIZE (snd serialized) temp of
        Inl f \<Rightarrow> Inl f
      | Inr temp1 \<Rightarrow>
          if fst serialized \<noteq> 1 then Inl (Exit ERROR_SECP_SERIALIZE_PUBKEY)
          else
     (case check_pubkeys lb temp1 (unat (pubkeys_cnt fl)) used 0 of
        Inl f \<Rightarrow> Inl f
      | Inr (matched, used1) \<Rightarrow>
          if matched \<noteq> 1 then Inl (Exit ERROR_VERIFICATION)
          else Inr (temp1, used1))))))"

function verify_signatures ::
  "('h, 's, 'p) env \<Rightarrow> byte list \<Rightarrow> byte list \<Rightarrow> flags \<Rightarrow> byte list \<Rightarrow> byte list \<Rightarrow> nat \<Rightarrow>
     (byte list \<times> byte list) res" where
  "verify_signatures e lb message fl temp used i =
     (if i < unat (threshold fl) then
        (case verify_signature e lb message fl temp used i of
           Inl f \<Rightarrow> Inl f
         | Inr (temp1, used1) \<Rightarrow> verify_signatures e lb message fl temp1 used1 (i + 1))
      else Inr (temp, used))"
  by pat_completeness auto
termination
  by (relation "measure (\<lambda>(e, lb, message, fl, temp, used, i). unat (threshold fl) - i)") auto

text \<open>The loop over the first \<open>require_first_n\<close> public keys (lines 237-243).\<close>

function check_first_n :: "byte list \<Rightarrow> nat \<Rightarrow> nat \<Rightarrow> outcome" where
  "check_first_n used n i =
     (if i < n then
        (case index (length used) used i of
           Inl f \<Rightarrow> f
         | Inr u \<Rightarrow> if u \<noteq> 1 then Exit ERROR_VERIFICATION else check_first_n used n (i + 1))
      else Exit 0)"
  by pat_completeness auto
termination
  by (relation "measure (\<lambda>(used, n, i). n - i)") auto

definition verify_threshold ::
  "('h, 's, 'p) env \<Rightarrow> byte list \<Rightarrow> byte list \<Rightarrow> flags \<Rightarrow> byte list \<Rightarrow> outcome" where
  "verify_threshold e lb message fl temp =
     (let used_signatures = replicate (unat (threshold fl)) (0 :: byte) in
      if secp256k1_initialize e \<noteq> 0 then Exit (secp256k1_initialize e)
      else
        (case verify_signatures e lb message fl temp used_signatures 0 of
           Inl f \<Rightarrow> f
         | Inr (temp1, used) \<Rightarrow> check_first_n used (unat (require_first_n fl)) 0))"

subsection \<open>The whole of \<open>main\<close> (lines 70-243)\<close>

text \<open>
  Everything before the signatures are verified. The result holds what the last stage
  reads: \<open>lock_bytes\<close>, the flags, the \<open>witness\<close> array as the digest left it, \<open>temp\<close>
  and \<open>message\<close>.
\<close>

record prepared =
  p_first :: first_witness
  p_flags :: flags
  p_witness :: "byte list"
  p_temp :: "byte list"
  p_message :: "byte list"

definition prepare :: "('h, 's, 'p) env \<Rightarrow> prepared res option" where
  "prepare e =
     (case load_args e of
        Inl x \<Rightarrow> Some (Inl x)
      | Inr (script, args_pos) \<Rightarrow>
     (case load_witness e of
        Inl x \<Rightarrow> Some (Inl x)
      | Inr fw \<Rightarrow>
     (case get_flags (lock_bytes fw) of
        Inl x \<Rightarrow> Some (Inl x)
      | Inr fl \<Rightarrow>
     (case check_script_hash e [] script args_pos (lock_bytes fw) (multisig_script_len fl) of
        Inl x \<Rightarrow> Some (Inl x)
      | Inr temp1 \<Rightarrow>
     (case load_tx_hash e of
        Inl x \<Rightarrow> Some (Inl x)
      | Inr tx_hash \<Rightarrow>
     (case prepare_sign_message e temp1 tx_hash fw fl of
        None \<Rightarrow> None
      | Some (Inl x) \<Rightarrow> Some (Inl x)
      | Some (Inr (w, temp2, message)) \<Rightarrow>
          Some (Inr \<lparr>p_first = fw, p_flags = fl, p_witness = w, p_temp = temp2,
                     p_message = message\<rparr>)))))))"

text \<open>\<open>None\<close>: the loop over the other witnesses does not end.\<close>

definition main :: "('h, 's, 'p) env \<Rightarrow> outcome option" where
  "main e =
     (case prepare e of
        None \<Rightarrow> None
      | Some (Inl x) \<Rightarrow> Some x
      | Some (Inr p) \<Rightarrow>
          Some (verify_threshold e (lock_bytes (p_first p)) (p_message p) (p_flags p)
                  (p_temp p)))"


declare check_pubkeys.simps [simp del]
declare verify_signatures.simps [simp del]
declare check_first_n.simps [simp del]

subsection \<open>Notions used in the statements\<close>

text \<open>
  The \<open>j\<close>-th public key of the policy in \<open>lock_bytes\<close>, and the candidate of
  signature \<open>i\<close>: the serialized public key that parsing, recovery and serialization
  produce for the \<open>i\<close>-th 65-byte slice after the policy, when all three succeed.
\<close>

definition pubkey_at :: "byte list \<Rightarrow> nat \<Rightarrow> byte list" where
  "pubkey_at lb j = take PUBKEY_SIZE (drop (FLAGS_SIZE + j * PUBKEY_SIZE) lb)"

definition candidate ::
  "('h, 's, 'p) env \<Rightarrow> byte list \<Rightarrow> nat \<Rightarrow> byte list \<Rightarrow> nat \<Rightarrow> byte list option" where
  "candidate e lb msl message i =
     (let off = msl + i * SIGNATURE_SIZE;
          parsed = secp256k1_parse_compact e (take RECID_INDEX (drop off lb))
                     (lb ! (off + RECID_INDEX));
          recovered = secp256k1_recover e (snd parsed) message;
          serialized = secp256k1_serialize e (snd recovered) PUBKEY_SIZE
      in if fst parsed \<noteq> 0 \<and> fst recovered = 1 \<and> fst serialized = 1
         then Some (snd serialized) else None)"

text \<open>
  The state of the loop over the signatures (\<open>temp\<close> and \<open>used_signatures\<close>) after
  its rounds 0 to \<open>i - 1\<close>, when it starts from \<open>temp\<close> and \<open>used\<close>.
\<close>

fun rounds ::
  "('h, 's, 'p) env \<Rightarrow> byte list \<Rightarrow> byte list \<Rightarrow> flags \<Rightarrow> byte list \<Rightarrow> byte list \<Rightarrow> nat \<Rightarrow>
     (byte list \<times> byte list) res" where
  "rounds e lb message fl temp used 0 = Inr (temp, used)"
| "rounds e lb message fl temp used (Suc i) =
     (case rounds e lb message fl temp used i of
        Inl f \<Rightarrow> Inl f
      | Inr (temp1, used1) \<Rightarrow> verify_signature e lb message fl temp1 used1 i)"

section \<open>A test environment\<close>

text \<open>
  A small executable instance of the environment, for the concrete runs below. The host
  answers \<open>ok bs\<close> (success, \<open>bs\<close> written, its length reported) or \<open>no_more\<close> (index
  out of bound). The framing is a toy one: a blob is its field's length in one byte,
  then the field, so the field of a blob starts at offset 1. The hash state is the
  list of all bytes fed so far and the hash its first bytes, padded with zeros. A
  signature by a key is the key itself followed by the first 31 bytes of the message
  and the recovery id; parsing fails on a recovery id above 3, recovery checks the
  message bytes and returns the key.
\<close>

definition ok :: "byte list \<Rightarrow> syscall_res" where
  "ok bs = \<lparr>ret = CKB_SUCCESS, stored = bs, len_out = length bs\<rparr>"

definition no_more :: syscall_res where
  "no_more = \<lparr>ret = CKB_INDEX_OUT_OF_BOUND, stored = [], len_out = 0\<rparr>"

definition framed :: "byte list \<Rightarrow> byte list" where
  "framed bs = word_of_nat (length bs) # bs"

definition group_of :: "byte list list \<Rightarrow> nat \<Rightarrow> syscall_res" where
  "group_of ws i = (if i < length ws then ok (ws ! i) else no_more)"

definition toy_env ::
  "syscall_res \<Rightarrow> (nat \<Rightarrow> syscall_res) \<Rightarrow> (byte list, byte list, byte list) env" where
  "toy_env scr wit =
     \<lparr>ckb_load_script = (\<lambda>n. scr),
      ckb_load_witness = (\<lambda>n i. wit i),
      ckb_load_tx_hash = (\<lambda>n. ok (replicate 32 7)),
      mol_cut = (\<lambda>buf p f. \<lparr>code = 0, pos = \<lparr>ptr = ptr p + 1, psize = unat (buf ! ptr p)\<rparr>\<rparr>),
      mol_cut_bytes = (\<lambda>buf p. \<lparr>code = 0, pos = p\<rparr>),
      blake2b_init = (\<lambda>n. []),
      blake2b_update = (\<lambda>h bs. h @ bs),
      blake2b_final = (\<lambda>h n. take n (h @ replicate n 0)),
      secp256k1_initialize = 0,
      secp256k1_parse_compact = (\<lambda>bs r. if 3 < r then (0, bs) else (1, bs)),
      secp256k1_recover = (\<lambda>s m. if drop 33 s = take 31 m then (1, take 33 s) else (0, [])),
      secp256k1_serialize = (\<lambda>p n. (1, p))\<rparr>"

definition key :: "byte \<Rightarrow> byte list" where
  "key b = 2 # replicate 32 b"

definition sig_by :: "byte list \<Rightarrow> byte list" where
  "sig_by k = k @ replicate 31 7 @ [0]"

definition env_of :: "byte list \<Rightarrow> (byte list, byte list, byte list) env" where
  "env_of lb = toy_env (ok (framed (take 20 lb))) (group_of [framed lb])"

subsection \<open>Concrete inputs\<close>

text \<open>
  \<open>lock_ok\<close>: two keys, two signatures required, the first key mandatory, signed by
  both keys. \<open>p_ok\<close> is what \<open>main\<close> has computed for it when it starts to verify
  the signatures. The other inputs are described at the theorems that use them.
\<close>

definition lock_ok :: "byte list" where
  "lock_ok = [0, 1, 2, 2] @ key 10 @ key 11 @ sig_by (key 11) @ sig_by (key 10)"

definition p_ok :: prepared where
  "p_ok = \<lparr>p_first = \<lparr>witness = framed lock_ok, witness_len = 201,
                       lock_pos = \<lparr>ptr = 1, psize = 200\<rparr>, lock_bytes = lock_ok\<rparr>,
           p_flags = \<lparr>pubkeys_cnt = 2, threshold = 2, require_first_n = 1,
                      multisig_script_len = 70, signatures_len = 130\<rparr>,
           p_witness = 200 # take 70 lock_ok @ replicate 130 0,
           p_temp = take 32 lock_ok, p_message = replicate 32 7\<rparr>"

definition lock_c1 :: "byte list" where
  "lock_c1 = [0, 1, 2, 3] @ key 10 @ key 11 @ key 12 @ sig_by (key 12) @ sig_by (key 10)"

definition lock_c5 :: "byte list" where
  "lock_c5 = [0, 0, 1, 2] @ key 10 @ key 11 @ sig_by (key 11)"

definition env_c3 :: "(byte list, byte list, byte list) env" where
  "env_c3 = toy_env (ok (framed (take 20 lock_ok))) (group_of [framed lock_ok, replicate 1025 0])"

definition env_c7 :: "(byte list, byte list, byte list) env" where
  "env_c7 = toy_env (ok (framed (take 20 lock_ok)))
     (\<lambda>i. if i = 0
          then \<lparr>ret = CKB_SUCCESS, stored = framed lock_ok @ replicate 32567 0, len_out = 40000\<rparr>
          else no_more)"

definition lock_c8 :: "byte list" where
  "lock_c8 = [0, 0, 2, 2] @ key 10 @ key 10 @ sig_by (key 10) @ sig_by (key 10)"

definition lock_c8w :: "byte list" where
  "lock_c8w = [0, 0, 2, 2] @ key 10 @ key 11 @ sig_by (key 10) @ sig_by (key 10)"

definition p_c8w :: prepared where
  "p_c8w = \<lparr>p_first = \<lparr>witness = framed lock_c8w, witness_len = 201,
                       lock_pos = \<lparr>ptr = 1, psize = 200\<rparr>, lock_bytes = lock_c8w\<rparr>,
           p_flags = \<lparr>pubkeys_cnt = 2, threshold = 2, require_first_n = 0,
                      multisig_script_len = 70, signatures_len = 130\<rparr>,
           p_witness = 200 # take 70 lock_c8w @ replicate 130 0,
           p_temp = take 32 lock_c8w, p_message = replicate 32 7\<rparr>"

definition lock_c9 :: "byte list" where
  "lock_c9 = [0, 0, 1, 3] @ key 10 @ key 11 @ key 12 @ sig_by (key 12)"

definition lock_c10 :: "byte list" where
  "lock_c10 = [0, 1, 2, 2] @ key 10 @ key 11 @ sig_by (key 11) @ key 10 @ replicate 31 7 @ [9]"

definition p_c10 :: prepared where
  "p_c10 = \<lparr>p_first = \<lparr>witness = framed lock_c10, witness_len = 201,
                       lock_pos = \<lparr>ptr = 1, psize = 200\<rparr>, lock_bytes = lock_c10\<rparr>,
           p_flags = \<lparr>pubkeys_cnt = 2, threshold = 2, require_first_n = 1,
                      multisig_script_len = 70, signatures_len = 130\<rparr>,
           p_witness = 200 # take 70 lock_c10 @ replicate 130 0,
           p_temp = take 32 lock_c10, p_message = replicate 32 7\<rparr>"

section \<open>Properties\<close>

subsection \<open>Lists and memcmp\<close>

lemma memcmp_eq: "length xs = length ys \<Longrightarrow> memcmp xs ys = 0 \<longleftrightarrow> xs = ys"
  by (induction xs ys rule: memcmp.induct) (auto simp: word_uint_eq_iff)

lemma memcmp_same [simp]: "memcmp xs xs = 0"
  by (induction xs) auto

lemma take_drop_take:
  assumes "a + n \<le> m"
  shows "take n (drop a (take m xs)) = take n (drop a xs)"
  using assms by (simp add: drop_take min_def)

lemma nth_take_drop:
  assumes "k < m"
  shows "take m (drop a xs) ! k = drop a xs ! k"
  using assms by simp

lemma replicate_neq_Cons: "x \<noteq> y \<Longrightarrow> replicate n x \<noteq> y # ys"
  by (cases n) auto

lemma less_two: "i < (2::nat) \<longleftrightarrow> i = 0 \<or> i = Suc 0"
  by auto

subsection \<open>What the stages before the verification establish\<close>

lemma get_flags_InrD:
  assumes "get_flags lb = Inr fl"
  shows "4 \<le> length lb"
    and "pubkeys_cnt fl = lb ! 3"
    and "threshold fl = (if lb ! 2 = 0 then lb ! 3 else lb ! 2)"
    and "require_first_n fl = lb ! 1"
    and "multisig_script_len fl = 4 + 33 * unat (pubkeys_cnt fl)"
    and "signatures_len fl = 65 * unat (threshold fl)"
    and "length lb = multisig_script_len fl + signatures_len fl"
    and "pubkeys_cnt fl \<noteq> 0"
    and "threshold fl \<noteq> 0"
    and "threshold fl \<le> pubkeys_cnt fl"
    and "require_first_n fl \<le> threshold fl"
  using assms
  by (auto simp: get_flags_def index_def Let_def not_less split: if_splits)

lemma load_witness_InrD:
  assumes "load_witness e = Inr fw"
  defines "r \<equiv> ckb_load_witness e MAX_WITNESS_SIZE 0"
  shows "ret r = CKB_SUCCESS"
    and "witness fw = stored r"
    and "witness_len fw = len_out r"
    and "length (stored r) \<le> MAX_WITNESS_SIZE"
    and "ptr (lock_pos fw) + psize (lock_pos fw) \<le> length (stored r)"
    and "lock_bytes fw = take (psize (lock_pos fw)) (drop (ptr (lock_pos fw)) (stored r))"
    and "length (lock_bytes fw) = psize (lock_pos fw)"
  using assms
  by (auto simp: load_witness_def Let_def store_def fetch_def not_less
           split: if_splits sum.splits)

lemma prepare_InrD:
  assumes "prepare e = Some (Inr p)"
  shows "\<exists>script args_pos temp1 tx_hash.
           load_args e = Inr (script, args_pos) \<and>
           load_witness e = Inr (p_first p) \<and>
           get_flags (lock_bytes (p_first p)) = Inr (p_flags p) \<and>
           check_script_hash e [] script args_pos (lock_bytes (p_first p))
             (multisig_script_len (p_flags p)) = Inr temp1 \<and>
           load_tx_hash e = Inr tx_hash \<and>
           prepare_sign_message e temp1 tx_hash (p_first p) (p_flags p) =
             Some (Inr (p_witness p, p_temp p, p_message p))"
  using assms
  by (auto simp: prepare_def split: sum.splits option.splits prod.splits)

lemma prepare_sign_message_InrD:
  assumes "prepare_sign_message e temp tx_hash fw fl = Some (Inr (w, temp2, message))"
  shows "w = take (ptr (lock_pos fw) + multisig_script_len fl) (witness fw) @
             replicate (signatures_len fl) 0 @
             drop (ptr (lock_pos fw) + multisig_script_len fl + signatures_len fl) (witness fw)"
    and "length message \<le> BLAKE2B_BLOCK_SIZE"
  using assms
  by (auto simp: prepare_sign_message_def Let_def memset_def store_def
           split: if_splits sum.splits option.splits prod.splits)

lemma main_prepared:
  assumes "prepare e = Some (Inr p)"
  shows "main e = Some (verify_threshold e (lock_bytes (p_first p)) (p_message p) (p_flags p)
                          (p_temp p))"
  using assms by (simp add: main_def)

lemma prepared_layout:
  assumes "prepare e = Some (Inr p)"
  defines "host \<equiv> stored (ckb_load_witness e MAX_WITNESS_SIZE 0)"
    and "off \<equiv> ptr (lock_pos (p_first p))"
    and "msl \<equiv> multisig_script_len (p_flags p)"
    and "sl \<equiv> signatures_len (p_flags p)"
  shows "get_flags (lock_bytes (p_first p)) = Inr (p_flags p)"
    and "lock_bytes (p_first p) = take (msl + sl) (drop off host)"
    and "length (lock_bytes (p_first p)) = msl + sl"
    and "off + msl + sl \<le> length host"
    and "p_witness p = take (off + msl) host @ replicate sl 0 @ drop (off + msl + sl) host"
    and "length (p_message p) \<le> BLAKE2B_BLOCK_SIZE"
proof -
  from prepare_InrD [OF assms(1)] obtain script args_pos temp1 tx_hash where
    lw: "load_witness e = Inr (p_first p)"
    and gf: "get_flags (lock_bytes (p_first p)) = Inr (p_flags p)"
    and ps: "prepare_sign_message e temp1 tx_hash (p_first p) (p_flags p) =
               Some (Inr (p_witness p, p_temp p, p_message p))"
    by blast
  note W = load_witness_InrD [OF lw]
  note F = get_flags_InrD [OF gf]
  note S = prepare_sign_message_InrD [OF ps]
  show "get_flags (lock_bytes (p_first p)) = Inr (p_flags p)" by (rule gf)
  have sz: "psize (lock_pos (p_first p)) = msl + sl"
    using W(7) F(7) by (simp add: msl_def sl_def)
  show "lock_bytes (p_first p) = take (msl + sl) (drop off host)"
    using W(6) sz by (simp add: host_def off_def)
  show "length (lock_bytes (p_first p)) = msl + sl"
    using W(7) sz by simp
  show "off + msl + sl \<le> length host"
    using W(5) sz by (simp add: host_def off_def)
  show "p_witness p = take (off + msl) host @ replicate sl 0 @ drop (off + msl + sl) host"
    using S(1) W(2) by (simp add: host_def off_def msl_def sl_def)
  show "length (p_message p) \<le> BLAKE2B_BLOCK_SIZE"
    by (rule S(2))
qed

subsection \<open>The scan over the public keys, within the bounds of used-signatures\<close>

text \<open>
  As long as the scan stays inside \<open>used_signatures\<close> (\<open>cnt \<le> length used\<close>) it does
  what the design describes: it takes the first index that is not used and whose key
  equals the candidate (\<open>check_pubkeys_first\<close>), and reports no match when there is
  none (\<open>check_pubkeys_none\<close>). When the array is shorter than the number of keys,
  a candidate that finds no free equal key inside the array takes the scan out of it
  (\<open>check_pubkeys_overrun\<close>). The last loop accepts iff the first
  \<open>require_first_n\<close> entries are all set (\<open>check_first_n_iff\<close>).
\<close>

lemma fetch_pubkey:
  assumes "FLAGS_SIZE + PUBKEY_SIZE * cnt \<le> length lb" "i < cnt"
  shows "fetch (length lb) lb (FLAGS_SIZE + i * PUBKEY_SIZE) PUBKEY_SIZE = Inr (pubkey_at lb i)"
    and "length (pubkey_at lb i) = PUBKEY_SIZE"
proof -
  have "FLAGS_SIZE + i * PUBKEY_SIZE + PUBKEY_SIZE \<le> FLAGS_SIZE + PUBKEY_SIZE * cnt"
    using assms(2) by simp
  then have b: "FLAGS_SIZE + i * PUBKEY_SIZE + PUBKEY_SIZE \<le> length lb"
    using assms(1) by linarith
  show "fetch (length lb) lb (FLAGS_SIZE + i * PUBKEY_SIZE) PUBKEY_SIZE = Inr (pubkey_at lb i)"
    using b by (simp add: fetch_def pubkey_at_def)
  show "length (pubkey_at lb i) = PUBKEY_SIZE"
    using b by (simp add: pubkey_at_def)
qed

lemma check_pubkeys_step:
  assumes "FLAGS_SIZE + PUBKEY_SIZE * cnt \<le> length lb" "PUBKEY_SIZE \<le> length temp"
    and "i < cnt" "i < length used"
  shows "check_pubkeys lb temp cnt used i =
           (if used ! i \<noteq> 1 \<and> pubkey_at lb i = take PUBKEY_SIZE temp
            then Inr (1, used[i := 1])
            else check_pubkeys lb temp cnt used (i + 1))"
proof -
  have ft: "fetch TEMP_SIZE temp 0 PUBKEY_SIZE = Inr (take PUBKEY_SIZE temp)"
    using assms(2) by (simp add: fetch_def)
  have ix: "index (length used) used i = Inr (used ! i)"
    using assms(4) by (simp add: index_def)
  have len: "length (pubkey_at lb i) = length (take PUBKEY_SIZE temp)"
    using fetch_pubkey(2) [OF assms(1,3)] assms(2) by simp
  show ?thesis
    using assms(3)
    by (simp add: check_pubkeys.simps [of lb temp cnt used i] ix ft
          fetch_pubkey(1) [OF assms(1,3)] memcmp_eq [OF len])
qed

lemma check_pubkeys_none:
  assumes "FLAGS_SIZE + PUBKEY_SIZE * cnt \<le> length lb" "PUBKEY_SIZE \<le> length temp"
    and "cnt \<le> length used"
    and "\<forall>j. i \<le> j \<and> j < cnt \<longrightarrow> used ! j = 1 \<or> pubkey_at lb j \<noteq> take PUBKEY_SIZE temp"
  shows "check_pubkeys lb temp cnt used i = Inr (0, used)"
  using assms(4)
proof (induction "cnt - i" arbitrary: i)
  case 0
  then show ?case by (simp add: check_pubkeys.simps [of lb temp cnt used i])
next
  case (Suc n)
  then have i: "i < cnt" by simp
  have "check_pubkeys lb temp cnt used i = check_pubkeys lb temp cnt used (i + 1)"
    using check_pubkeys_step [OF assms(1,2) i] i assms(3) Suc.prems by auto
  also have "\<dots> = Inr (0, used)"
    using Suc.hyps(1) [of "i + 1"] Suc.hyps(2) Suc.prems by simp
  finally show ?case .
qed

lemma check_pubkeys_first:
  assumes "FLAGS_SIZE + PUBKEY_SIZE * cnt \<le> length lb" "PUBKEY_SIZE \<le> length temp"
    and "cnt \<le> length used"
    and "i \<le> j" "j < cnt" "used ! j \<noteq> 1" "pubkey_at lb j = take PUBKEY_SIZE temp"
    and "\<forall>k. i \<le> k \<and> k < j \<longrightarrow> used ! k = 1 \<or> pubkey_at lb k \<noteq> take PUBKEY_SIZE temp"
  shows "check_pubkeys lb temp cnt used i = Inr (1, used[j := 1])"
  using assms(4,8)
proof (induction "j - i" arbitrary: i)
  case 0
  then have "i = j" by simp
  then show ?case
    using check_pubkeys_step [OF assms(1,2), of j used] assms(3,5,6,7) by simp
next
  case (Suc n)
  then have i: "i < j" by simp
  then have ic: "i < cnt" using assms(5) by simp
  have "check_pubkeys lb temp cnt used i = check_pubkeys lb temp cnt used (i + 1)"
    using check_pubkeys_step [OF assms(1,2) ic] ic i assms(3) Suc.prems(2) by auto
  also have "\<dots> = Inr (1, used[j := 1])"
    using Suc.hyps(1) [of "i + 1"] Suc.hyps(2) Suc.prems i by simp
  finally show ?case .
qed

lemma check_pubkeys_overrun:
  assumes "FLAGS_SIZE + PUBKEY_SIZE * cnt \<le> length lb" "PUBKEY_SIZE \<le> length temp"
    and "length used < cnt" "i \<le> length used"
    and "\<forall>j. i \<le> j \<and> j < length used \<longrightarrow>
           used ! j = 1 \<or> pubkey_at lb j \<noteq> take PUBKEY_SIZE temp"
  shows "check_pubkeys lb temp cnt used i = Inl (Fault OutOfBounds)"
  using assms(4,5)
proof (induction "length used - i" arbitrary: i)
  case 0
  then have "i = length used" by simp
  then show ?case
    using assms(3)
    by (simp add: check_pubkeys.simps [of lb temp cnt used "length used"] index_def)
next
  case (Suc n)
  then have i: "i < length used" by simp
  then have ic: "i < cnt" using assms(3) by simp
  have "check_pubkeys lb temp cnt used i = check_pubkeys lb temp cnt used (i + 1)"
    using check_pubkeys_step [OF assms(1,2) ic i] Suc.prems(2) i by auto
  also have "\<dots> = Inl (Fault OutOfBounds)"
    using Suc.hyps(1) [of "i + 1"] Suc.hyps(2) Suc.prems i by simp
  finally show ?case .
qed

lemma check_first_n_iff:
  assumes "n \<le> length used"
  shows "check_first_n used n i =
           (if \<forall>j. i \<le> j \<and> j < n \<longrightarrow> used ! j = 1 then Exit 0 else Exit ERROR_VERIFICATION)"
proof (induction "n - i" arbitrary: i)
  case 0
  then show ?case
    by (simp add: check_first_n.simps [of used n i])
next
  case (Suc k)
  then have i: "i < n" by simp
  have ix: "index (length used) used i = Inr (used ! i)"
    using i assms by (simp add: index_def)
  have IH: "check_first_n used n (i + 1) =
              (if \<forall>j. i + 1 \<le> j \<and> j < n \<longrightarrow> used ! j = 1 then Exit 0
               else Exit ERROR_VERIFICATION)"
    using Suc.hyps(1) [of "i + 1"] Suc.hyps(2) by simp
  have split: "(\<forall>j. i \<le> j \<and> j < n \<longrightarrow> used ! j = 1) \<longleftrightarrow>
                 used ! i = 1 \<and> (\<forall>j. i + 1 \<le> j \<and> j < n \<longrightarrow> used ! j = 1)"
  proof
    assume a: "\<forall>j. i \<le> j \<and> j < n \<longrightarrow> used ! j = 1"
    then have "used ! i = 1" using i by simp
    moreover have "\<forall>j. i + 1 \<le> j \<and> j < n \<longrightarrow> used ! j = 1" using a by simp
    ultimately show "used ! i = 1 \<and> (\<forall>j. i + 1 \<le> j \<and> j < n \<longrightarrow> used ! j = 1)" by simp
  next
    assume b: "used ! i = 1 \<and> (\<forall>j. i + 1 \<le> j \<and> j < n \<longrightarrow> used ! j = 1)"
    show "\<forall>j. i \<le> j \<and> j < n \<longrightarrow> used ! j = 1"
    proof (intro allI impI)
      fix j assume j: "i \<le> j \<and> j < n"
      show "used ! j = 1"
      proof (cases "j = i")
        case True
        then show ?thesis using b by simp
      next
        case False
        then have "i + 1 \<le> j" using j by simp
        then show ?thesis using b j by simp
      qed
    qed
  qed
  have "check_first_n used n i =
          (if used ! i \<noteq> 1 then Exit ERROR_VERIFICATION else check_first_n used n (i + 1))"
    using i by (simp add: check_first_n.simps [of used n i] ix)
  then show ?case
    unfolding IH split by simp
qed

lemma verify_signature_candidate:
  assumes "get_flags lb = Inr fl" "i < unat (threshold fl)"
    and "length message = BLAKE2B_BLOCK_SIZE"
    and "candidate e lb (multisig_script_len fl) message i = Some c"
    and "length c = PUBKEY_SIZE"
  shows "verify_signature e lb message fl temp used i =
           (case check_pubkeys lb (c @ drop PUBKEY_SIZE temp) (unat (pubkeys_cnt fl)) used 0 of
              Inl f \<Rightarrow> Inl f
            | Inr (matched, used1) \<Rightarrow>
                if matched \<noteq> 1 then Inl (Exit ERROR_VERIFICATION)
                else Inr (c @ drop PUBKEY_SIZE temp, used1))"
proof -
  note fl = get_flags_InrD [OF assms(1)]
  let ?off = "multisig_script_len fl + i * SIGNATURE_SIZE"
  have "i * SIGNATURE_SIZE + SIGNATURE_SIZE \<le> SIGNATURE_SIZE * unat (threshold fl)"
    using assms(2) by simp
  then have b: "?off + SIGNATURE_SIZE \<le> length lb"
    using fl(6,7) by linarith
  have f1: "fetch (length lb) lb ?off RECID_INDEX = Inr (take RECID_INDEX (drop ?off lb))"
    using b by (simp add: fetch_def)
  have f2: "index (length lb) lb (?off + RECID_INDEX) = Inr (lb ! (?off + RECID_INDEX))"
    using b by (simp add: index_def)
  have f3: "fetch BLAKE2B_BLOCK_SIZE message 0 BLAKE2B_BLOCK_SIZE = Inr message"
    using assms(3) by (simp add: fetch_def)
  have f4: "store TEMP_SIZE c temp = Inr (c @ drop PUBKEY_SIZE temp)"
    using assms(5) by (simp add: store_def)
  show ?thesis
    using assms(4)
    unfolding verify_signature_def candidate_def Let_def f1 f2 f3 sum.case
    by (auto simp: f4 split: if_splits)
qed

lemma verify_signatures_step:
  assumes "i < unat (threshold fl)"
  shows "verify_signatures e lb message fl temp used i =
           (case verify_signature e lb message fl temp used i of
              Inl f \<Rightarrow> Inl f
            | Inr (temp1, used1) \<Rightarrow> verify_signatures e lb message fl temp1 used1 (Suc i))"
  using assms
  by (simp add: verify_signatures.simps [of e lb message fl temp used i] split: sum.split)

lemma verify_threshold_duplicates:
  assumes fl: "get_flags lb = Inr fl"
    and init: "secp256k1_initialize e = 0"
    and eq: "threshold fl = pubkeys_cnt fl"
    and two: "2 \<le> unat (threshold fl)"
    and msg: "length message = BLAKE2B_BLOCK_SIZE"
    and cand: "\<forall>i < unat (threshold fl).
                 candidate e lb (multisig_script_len fl) message i = Some c"
    and c: "length c = PUBKEY_SIZE"
    and once: "\<forall>j k. j < unat (pubkeys_cnt fl) \<and> k < unat (pubkeys_cnt fl) \<and>
                     pubkey_at lb j = c \<and> pubkey_at lb k = c \<longrightarrow> j = k"
  shows "verify_threshold e lb message fl temp = Exit ERROR_VERIFICATION"
proof -
  note F = get_flags_InrD [OF fl]
  let ?n = "unat (pubkeys_cnt fl)"
  let ?used = "replicate ?n (0 :: byte)"
  let ?t1 = "c @ drop PUBKEY_SIZE temp"
  have lb: "FLAGS_SIZE + PUBKEY_SIZE * ?n \<le> length lb"
    using F(5,7) by simp
  have t1: "PUBKEY_SIZE \<le> length ?t1" "take PUBKEY_SIZE ?t1 = c"
    using c by simp_all
  have c0: "candidate e lb (multisig_script_len fl) message 0 = Some c"
    and c1: "candidate e lb (multisig_script_len fl) message (Suc 0) = Some c"
    using cand two by auto
  have i0: "0 < unat (threshold fl)" and i1: "Suc 0 < unat (threshold fl)"
    using two by auto
  note v0 = verify_signature_candidate [OF fl i0 msg c0 c]
  note v1 = verify_signature_candidate [OF fl i1 msg c1 c]
  note unfold0 = verify_signatures_step [OF i0, of e lb message temp ?used]
  have res: "verify_signatures e lb message fl temp ?used 0 = Inl (Exit ERROR_VERIFICATION)"
  proof (cases "\<exists>j < ?n. pubkey_at lb j = c")
    case False
    then have "check_pubkeys lb ?t1 ?n ?used 0 = Inr (0, ?used)"
      using check_pubkeys_none [OF lb t1(1), of ?used 0] t1(2) by auto
    then show ?thesis
      by (simp add: unfold0 v0)
  next
    case True
    then obtain j where j: "j < ?n" "pubkey_at lb j = c" by blast
    have others: "\<forall>k. k < ?n \<and> k \<noteq> j \<longrightarrow> pubkey_at lb k \<noteq> c"
      using once j by blast
    have first: "check_pubkeys lb ?t1 ?n ?used 0 = Inr (1, ?used[j := 1])"
      using check_pubkeys_first [OF lb t1(1), of ?used 0 j] j others t1(2) by auto
    let ?u1 = "?used[j := 1]"
    let ?t2 = "c @ drop PUBKEY_SIZE ?t1"
    have t2: "PUBKEY_SIZE \<le> length ?t2" "take PUBKEY_SIZE ?t2 = c"
      using c by simp_all
    have "\<forall>k. 0 \<le> k \<and> k < ?n \<longrightarrow> ?u1 ! k = 1 \<or> pubkey_at lb k \<noteq> take PUBKEY_SIZE ?t2"
      using others j(1) t2(2) by (auto simp: nth_list_update)
    then have second: "check_pubkeys lb ?t2 ?n ?u1 0 = Inr (0, ?u1)"
      using check_pubkeys_none [OF lb t2(1), of ?u1 0] by simp
    have "verify_signature e lb message fl ?t1 ?u1 (Suc 0) = Inl (Exit ERROR_VERIFICATION)"
      unfolding v1 second by simp
    then have "verify_signatures e lb message fl ?t1 ?u1 (Suc 0) = Inl (Exit ERROR_VERIFICATION)"
      unfolding verify_signatures_step [OF i1] by simp
    moreover have "verify_signature e lb message fl temp ?used 0 = Inr (?t1, ?u1)"
      unfolding v0 first by simp
    ultimately show ?thesis
      unfolding unfold0 by simp
  qed
  show ?thesis
    using init by (simp add: verify_threshold_def eq res)
qed

subsection \<open>The loop over the other witnesses, within the bounds of temp\<close>

text \<open>
  As long as every further witness fits into \<open>temp\<close> (1024 bytes), the message is the
  hash of the transaction hash, the first witness with its signatures set to zero, and
  the further witnesses in order (\<open>prepare_sign_message_digest\<close>); a host failure
  other than index-out-of-bound ends the run with \<open>ERROR_SYSCALL\<close>.
\<close>

lemma digest_other_witnesses_overflow:
  assumes "TEMP_SIZE < length (stored (ckb_load_witness e MAX_WITNESS_SIZE i))"
  shows "digest_other_witnesses e ctx temp i = Some (Inl (Fault OutOfBounds))"
  using assms
  by (subst digest_other_witnesses.simps) (simp add: store_def Let_def)

lemma digest_other_witnesses_end:
  assumes "ret (ckb_load_witness e MAX_WITNESS_SIZE i) = CKB_INDEX_OUT_OF_BOUND"
    and "length (stored (ckb_load_witness e MAX_WITNESS_SIZE i)) \<le> TEMP_SIZE"
  shows "digest_other_witnesses e ctx temp i =
           Some (Inr (ctx, stored (ckb_load_witness e MAX_WITNESS_SIZE i) @
                           drop (length (stored (ckb_load_witness e MAX_WITNESS_SIZE i))) temp))"
  using assms
  by (subst digest_other_witnesses.simps) (simp add: store_def Let_def)

lemma digest_other_witnesses_failure:
  assumes "ret (ckb_load_witness e MAX_WITNESS_SIZE i) = CKB_FAILURE c"
    and "length (stored (ckb_load_witness e MAX_WITNESS_SIZE i)) \<le> TEMP_SIZE"
  shows "digest_other_witnesses e ctx temp i = Some (Inl (Exit ERROR_SYSCALL))"
  using assms
  by (subst digest_other_witnesses.simps) (simp add: store_def Let_def)

lemma digest_other_witnesses_step:
  assumes "ret (ckb_load_witness e MAX_WITNESS_SIZE i) = CKB_SUCCESS"
    and "length (stored (ckb_load_witness e MAX_WITNESS_SIZE i)) \<le> TEMP_SIZE"
    and "len_out (ckb_load_witness e MAX_WITNESS_SIZE i) =
           length (stored (ckb_load_witness e MAX_WITNESS_SIZE i))"
  shows "digest_other_witnesses e ctx temp i =
           digest_other_witnesses e
             (blake2b_update e ctx (stored (ckb_load_witness e MAX_WITNESS_SIZE i)))
             (stored (ckb_load_witness e MAX_WITNESS_SIZE i) @
                drop (length (stored (ckb_load_witness e MAX_WITNESS_SIZE i))) temp)
             (Suc i)"
  using assms
  by (subst digest_other_witnesses.simps) (simp add: store_def fetch_def Let_def)

lemma digest_other_witnesses_in_bounds:
  assumes "i \<le> k"
    and "\<forall>j. i \<le> j \<and> j < k \<longrightarrow>
            ret (ckb_load_witness e MAX_WITNESS_SIZE j) = CKB_SUCCESS \<and>
            length (stored (ckb_load_witness e MAX_WITNESS_SIZE j)) \<le> TEMP_SIZE \<and>
            len_out (ckb_load_witness e MAX_WITNESS_SIZE j) =
              length (stored (ckb_load_witness e MAX_WITNESS_SIZE j))"
    and "ret (ckb_load_witness e MAX_WITNESS_SIZE k) = CKB_INDEX_OUT_OF_BOUND"
    and "length (stored (ckb_load_witness e MAX_WITNESS_SIZE k)) \<le> TEMP_SIZE"
  shows "\<exists>temp'. digest_other_witnesses e ctx temp i =
           Some (Inr (foldl (blake2b_update e) ctx
                        (map (\<lambda>j. stored (ckb_load_witness e MAX_WITNESS_SIZE j)) [i..<k]),
                      temp'))"
  using assms(1,2)
proof (induction "k - i" arbitrary: i ctx temp)
  case 0
  then have "i = k" by simp
  then show ?case
    using digest_other_witnesses_end [OF assms(3,4)] by simp
next
  case (Suc n)
  then have ik: "i < k" by simp
  have s: "ret (ckb_load_witness e MAX_WITNESS_SIZE i) = CKB_SUCCESS"
    "length (stored (ckb_load_witness e MAX_WITNESS_SIZE i)) \<le> TEMP_SIZE"
    "len_out (ckb_load_witness e MAX_WITNESS_SIZE i) =
       length (stored (ckb_load_witness e MAX_WITNESS_SIZE i))"
    using Suc.prems(2) ik by auto
  have up: "[i..<k] = i # [Suc i..<k]"
    using ik by (simp add: upt_conv_Cons)
  have "n = k - Suc i" "Suc i \<le> k"
    using Suc.hyps(2) ik by auto
  from Suc.hyps(1) [OF this] Suc.prems(2)
  obtain temp' where
    "digest_other_witnesses e
       (blake2b_update e ctx (stored (ckb_load_witness e MAX_WITNESS_SIZE i)))
       (stored (ckb_load_witness e MAX_WITNESS_SIZE i) @
          drop (length (stored (ckb_load_witness e MAX_WITNESS_SIZE i))) temp) (Suc i) =
     Some (Inr (foldl (blake2b_update e)
                  (blake2b_update e ctx (stored (ckb_load_witness e MAX_WITNESS_SIZE i)))
                  (map (\<lambda>j. stored (ckb_load_witness e MAX_WITNESS_SIZE j)) [Suc i..<k]),
                temp'))"
    by (metis Suc_leD)
  then show ?case
    unfolding digest_other_witnesses_step [OF s] up by auto
qed

lemma prepare_sign_message_digest:
  assumes tx: "length tx_hash = BLAKE2B_BLOCK_SIZE"
    and lw: "load_witness e = Inr fw"
    and gf: "get_flags (lock_bytes fw) = Inr fl"
    and wl: "witness_len fw \<le> length (witness fw)"
    and k: "1 \<le> k"
    and ok: "\<forall>j. 1 \<le> j \<and> j < k \<longrightarrow>
            ret (ckb_load_witness e MAX_WITNESS_SIZE j) = CKB_SUCCESS \<and>
            length (stored (ckb_load_witness e MAX_WITNESS_SIZE j)) \<le> TEMP_SIZE \<and>
            len_out (ckb_load_witness e MAX_WITNESS_SIZE j) =
              length (stored (ckb_load_witness e MAX_WITNESS_SIZE j))"
    and last: "length (stored (ckb_load_witness e MAX_WITNESS_SIZE k)) \<le> TEMP_SIZE"
    and fin: "\<forall>h. length (blake2b_final e h BLAKE2B_BLOCK_SIZE) = BLAKE2B_BLOCK_SIZE"
  defines "zeroed \<equiv>
             take (ptr (lock_pos fw) + multisig_script_len fl) (witness fw) @
             replicate (signatures_len fl) 0 @
             drop (ptr (lock_pos fw) + multisig_script_len fl + signatures_len fl) (witness fw)"
  shows "ret (ckb_load_witness e MAX_WITNESS_SIZE k) = CKB_INDEX_OUT_OF_BOUND \<Longrightarrow>
           \<exists>temp'. prepare_sign_message e temp tx_hash fw fl =
             Some (Inr (zeroed, temp',
               blake2b_final e
                 (foldl (blake2b_update e) (blake2b_init e BLAKE2B_BLOCK_SIZE)
                    ([tx_hash, take (witness_len fw) zeroed] @
                     map (\<lambda>j. stored (ckb_load_witness e MAX_WITNESS_SIZE j)) [1..<k]))
                 BLAKE2B_BLOCK_SIZE))"
    and "ret (ckb_load_witness e MAX_WITNESS_SIZE k) = CKB_FAILURE c \<Longrightarrow>
           prepare_sign_message e temp tx_hash fw fl = Some (Inl (Exit ERROR_SYSCALL))"
proof -
  note W = load_witness_InrD [OF lw]
  note F = get_flags_InrD [OF gf]
  have b: "ptr (lock_pos fw) + multisig_script_len fl + signatures_len fl \<le> length (witness fw)"
    "length (witness fw) \<le> MAX_WITNESS_SIZE"
    using W(2,4,5,7) F(7) by simp_all
  have f1: "fetch BLAKE2B_BLOCK_SIZE tx_hash 0 BLAKE2B_BLOCK_SIZE = Inr tx_hash"
    using tx by (simp add: fetch_def)
  have f2: "memset MAX_WITNESS_SIZE (witness fw) (ptr (lock_pos fw) + multisig_script_len fl) 0
              (signatures_len fl) = Inr zeroed"
    using b by (simp add: memset_def zeroed_def)
  have lz: "length zeroed = length (witness fw)"
    using b by (simp add: zeroed_def)
  have f3: "fetch MAX_WITNESS_SIZE zeroed 0 (witness_len fw) = Inr (take (witness_len fw) zeroed)"
    using wl b(2) lz by (simp add: fetch_def)
  let ?ctx = "blake2b_update e (blake2b_update e (blake2b_init e BLAKE2B_BLOCK_SIZE) tx_hash)
                (take (witness_len fw) zeroed)"
  {
    assume "ret (ckb_load_witness e MAX_WITNESS_SIZE k) = CKB_INDEX_OUT_OF_BOUND"
    from digest_other_witnesses_in_bounds [OF k ok this last, of ?ctx temp]
    obtain temp' where
      d: "digest_other_witnesses e ?ctx temp 1 =
            Some (Inr (foldl (blake2b_update e) ?ctx
                         (map (\<lambda>j. stored (ckb_load_witness e MAX_WITNESS_SIZE j)) [1..<k]),
                       temp'))"
      by blast
    show "\<exists>temp'. prepare_sign_message e temp tx_hash fw fl =
             Some (Inr (zeroed, temp',
               blake2b_final e
                 (foldl (blake2b_update e) (blake2b_init e BLAKE2B_BLOCK_SIZE)
                    ([tx_hash, take (witness_len fw) zeroed] @
                     map (\<lambda>j. stored (ckb_load_witness e MAX_WITNESS_SIZE j)) [1..<k]))
                 BLAKE2B_BLOCK_SIZE))"
      unfolding prepare_sign_message_def f1 f2 f3 Let_def sum.case d
      using fin by (simp add: store_def)
  }
  {
    assume fl: "ret (ckb_load_witness e MAX_WITNESS_SIZE k) = CKB_FAILURE c"
    have "digest_other_witnesses e ctx temp i = Some (Inl (Exit ERROR_SYSCALL))"
      if "i \<le> k" "1 \<le> i" for i ctx temp
      using that
    proof (induction "k - i" arbitrary: i ctx temp)
      case 0
      then have "i = k" by simp
      then show ?case
        using digest_other_witnesses_failure [OF fl last] by simp
    next
      case (Suc n)
      then have s: "ret (ckb_load_witness e MAX_WITNESS_SIZE i) = CKB_SUCCESS"
        "length (stored (ckb_load_witness e MAX_WITNESS_SIZE i)) \<le> TEMP_SIZE"
        "len_out (ckb_load_witness e MAX_WITNESS_SIZE i) =
           length (stored (ckb_load_witness e MAX_WITNESS_SIZE i))"
        using ok by auto
      show ?case
        unfolding digest_other_witnesses_step [OF s]
        using Suc.hyps(1) [of "Suc i"] Suc.hyps(2) Suc.prems by simp
    qed
    from this [of 1 ?ctx temp] k
    show "prepare_sign_message e temp tx_hash fw fl = Some (Inl (Exit ERROR_SYSCALL))"
      unfolding prepare_sign_message_def f1 f2 f3 Let_def sum.case by simp
  }
qed

subsection \<open>The loads of the script and of the first witness\<close>

text \<open>
  Both loads end with \<open>ERROR_SYSCALL\<close> exactly when the host's return code is not
  \<open>CKB_SUCCESS\<close>, whatever length the host reports, and \<open>main\<close> then returns
  \<open>ERROR_SYSCALL\<close>. (The host writes at most the 32768 bytes it was offered.)
\<close>

lemma syscall_error_by_return_code:
  assumes "length (stored (ckb_load_script e MAX_SCRIPT_SIZE)) \<le> MAX_SCRIPT_SIZE"
    and "length (stored (ckb_load_witness e MAX_WITNESS_SIZE 0)) \<le> MAX_WITNESS_SIZE"
  shows "(load_args e = Inl (Exit ERROR_SYSCALL) \<longleftrightarrow>
            ret (ckb_load_script e MAX_SCRIPT_SIZE) \<noteq> CKB_SUCCESS) \<and>
         (load_witness e = Inl (Exit ERROR_SYSCALL) \<longleftrightarrow>
            ret (ckb_load_witness e MAX_WITNESS_SIZE 0) \<noteq> CKB_SUCCESS) \<and>
         (ret (ckb_load_script e MAX_SCRIPT_SIZE) \<noteq> CKB_SUCCESS \<longrightarrow>
            main e = Some (Exit ERROR_SYSCALL)) \<and>
         ((\<exists>a. load_args e = Inr a) \<and>
          ret (ckb_load_witness e MAX_WITNESS_SIZE 0) \<noteq> CKB_SUCCESS \<longrightarrow>
            main e = Some (Exit ERROR_SYSCALL))"
proof -
  have a: "load_args e = Inl (Exit ERROR_SYSCALL) \<longleftrightarrow>
             ret (ckb_load_script e MAX_SCRIPT_SIZE) \<noteq> CKB_SUCCESS"
    using assms(1) by (auto simp: load_args_def store_def Let_def)
  have w: "load_witness e = Inl (Exit ERROR_SYSCALL) \<longleftrightarrow>
             ret (ckb_load_witness e MAX_WITNESS_SIZE 0) \<noteq> CKB_SUCCESS"
    using assms(2)
    by (auto simp: load_witness_def store_def fetch_def Let_def split: sum.splits)
  have m1: "load_args e = Inl x \<Longrightarrow> main e = Some x" for x
    by (simp add: main_def prepare_def)
  have m2: "load_args e = Inr a \<Longrightarrow> load_witness e = Inl x \<Longrightarrow> main e = Some x" for a x
    by (simp add: main_def prepare_def split: prod.splits)
  show ?thesis
    using a w m1 m2 by metis
qed

subsection \<open>The loop over the signatures, round by round\<close>

lemma verify_signatures_rounds:
  assumes "i \<le> unat (threshold fl)"
  shows "verify_signatures e lb message fl temp used 0 =
           (case rounds e lb message fl temp used i of
              Inl f \<Rightarrow> Inl f
            | Inr (temp1, used1) \<Rightarrow> verify_signatures e lb message fl temp1 used1 i)"
  using assms
proof (induction i)
  case 0
  show ?case by simp
next
  case (Suc i)
  then have i: "i < unat (threshold fl)" by simp
  have "verify_signatures e lb message fl temp used 0 =
          (case rounds e lb message fl temp used i of
             Inl f \<Rightarrow> Inl f
           | Inr (temp1, used1) \<Rightarrow> verify_signatures e lb message fl temp1 used1 i)"
    using Suc by simp
  then show ?case
    by (simp add: verify_signatures_step [OF i] split: sum.splits prod.splits)
qed

subsection \<open>Runs in the test environment\<close>

lemma toy_env_sel [simp]:
  "ckb_load_script (toy_env scr wit) n = scr"
  "ckb_load_witness (toy_env scr wit) n i = wit i"
  "ckb_load_tx_hash (toy_env scr wit) n = ok (replicate 32 7)"
  "mol_cut (toy_env scr wit) buf p f =
     \<lparr>code = 0, pos = \<lparr>ptr = ptr p + 1, psize = unat (buf ! ptr p)\<rparr>\<rparr>"
  "mol_cut_bytes (toy_env scr wit) buf p = \<lparr>code = 0, pos = p\<rparr>"
  "blake2b_init (toy_env scr wit) n = []"
  "blake2b_update (toy_env scr wit) h bs = h @ bs"
  "blake2b_final (toy_env scr wit) h n = take n (h @ replicate n 0)"
  "secp256k1_initialize (toy_env scr wit) = 0"
  "secp256k1_parse_compact (toy_env scr wit) bs r = (if 3 < r then (0, bs) else (1, bs))"
  "secp256k1_recover (toy_env scr wit) s m =
     (if drop 33 s = take 31 m then (1, take 33 s) else (0, []))"
  "secp256k1_serialize (toy_env scr wit) pk n = (1, pk)"
  by (simp_all add: toy_env_def)

lemma length_key [simp]: "length (key b) = 33"
  by (simp add: key_def)

lemma length_sig_by [simp]: "length (sig_by k) = length k + 32"
  by (simp add: sig_by_def)

lemma key_eq [simp]: "key a = key b \<longleftrightarrow> a = b"
  by (simp add: key_def)

lemma length_locks [simp]:
  "length lock_c1 = 233" "length lock_c5 = 135" "length lock_ok = 200"
  "length lock_c8 = 200" "length lock_c8w = 200" "length lock_c9 = 168" "length lock_c10 = 200"
  by (simp_all add: lock_c1_def lock_c5_def lock_ok_def lock_c8_def lock_c8w_def lock_c9_def
        lock_c10_def)

lemma nth_lock_ok: "lock_ok ! 3 = 2" "lock_ok ! 2 = 2" "lock_ok ! 1 = 1"
  by (simp_all add: lock_ok_def)

lemma toy_load_args:
  assumes "length args = BLAKE160_SIZE"
  shows "load_args (toy_env (ok (framed args)) wit) = Inr (framed args, \<lparr>ptr = 1, psize = 20\<rparr>)"
  using assms by (simp add: load_args_def ok_def framed_def store_def)

lemma toy_load_witness:
  assumes "FLAGS_SIZE \<le> length lb" "length lb < 256"
  shows "load_witness (toy_env scr (group_of (framed lb # ws))) =
           Inr \<lparr>witness = framed lb, witness_len = length lb + 1,
                lock_pos = \<lparr>ptr = 1, psize = length lb\<rparr>, lock_bytes = lb\<rparr>"
  using assms
  by (simp add: load_witness_def extract_witness_lock_def ok_def framed_def group_of_def
        store_def fetch_def unat_of_nat)

lemma toy_check_script_hash:
  assumes "get_flags lb = Inr fl"
  shows "check_script_hash (toy_env scr wit) [] (framed (take 20 lb)) \<lparr>ptr = Suc 0, psize = 20\<rparr> lb
           (multisig_script_len fl) = Inr (take 32 lb)"
proof -
  note F = get_flags_InrD [OF assms]
  have "unat (pubkeys_cnt fl) \<noteq> 0"
    using F(8) by (simp add: unat_eq_0)
  then have "37 \<le> multisig_script_len fl" "multisig_script_len fl \<le> length lb"
    using F(5,7) by simp_all
  then show ?thesis
    by (simp add: check_script_hash_def framed_def store_def fetch_def min_def)
qed

lemma toy_load_tx_hash: "load_tx_hash (toy_env scr wit) = Inr (replicate 32 7)"
  by (simp add: load_tx_hash_def ok_def store_def)

lemma toy_prepare_sign_message:
  assumes "get_flags lb = Inr fl" "length lb < 256"
  shows "prepare_sign_message (toy_env scr (group_of [framed lb])) temp (replicate 32 7)
           \<lparr>witness = framed lb, witness_len = Suc (length lb),
            lock_pos = \<lparr>ptr = Suc 0, psize = length lb\<rparr>, lock_bytes = lb\<rparr> fl =
         Some (Inr (word_of_nat (length lb) # take (multisig_script_len fl) lb @
                      replicate (signatures_len fl) 0,
                    temp, replicate 32 7))"
proof -
  note F = get_flags_InrD [OF assms(1)]
  have e: "digest_other_witnesses (toy_env scr (group_of [w])) ctx temp (Suc 0) =
             Some (Inr (ctx, temp))" for ctx w
    by (subst digest_other_witnesses.simps)
       (simp add: group_of_def no_more_def store_def Let_def)
  have "multisig_script_len fl + signatures_len fl \<le> length lb"
    "length lb \<le> multisig_script_len fl + signatures_len fl"
    using F(7) by simp_all
  then show ?thesis
    using assms(2)
    by (simp add: prepare_sign_message_def fetch_def memset_def e framed_def store_def)
qed

lemma toy_prepare:
  assumes "get_flags lb = Inr fl" "length lb < 256"
  shows "prepare (toy_env (ok (framed (take 20 lb))) (group_of [framed lb])) =
           Some (Inr \<lparr>p_first = \<lparr>witness = framed lb, witness_len = Suc (length lb),
                                 lock_pos = \<lparr>ptr = Suc 0, psize = length lb\<rparr>, lock_bytes = lb\<rparr>,
                      p_flags = fl,
                      p_witness = word_of_nat (length lb) # take (multisig_script_len fl) lb @
                                    replicate (signatures_len fl) 0,
                      p_temp = take 32 lb, p_message = replicate 32 7\<rparr>)"
proof -
  note F = get_flags_InrD [OF assms(1)]
  have "unat (pubkeys_cnt fl) \<noteq> 0"
    using F(8) by (simp add: unat_eq_0)
  then have len: "37 \<le> length lb"
    using F(5,7) by simp
  then have a: "length (take 20 lb) = BLAKE160_SIZE" by simp
  show ?thesis
    using assms(1)
    by (simp add: prepare_def toy_load_args [OF a] toy_load_witness [OF F(1) assms(2)]
          toy_check_script_hash [OF assms(1)] toy_load_tx_hash
          toy_prepare_sign_message [OF assms])
qed

lemma prepare_env_of:
  assumes "get_flags lb = Inr fl" "length lb < 256"
  shows "prepare (env_of lb) =
           Some (Inr \<lparr>p_first = \<lparr>witness = framed lb, witness_len = Suc (length lb),
                                 lock_pos = \<lparr>ptr = Suc 0, psize = length lb\<rparr>, lock_bytes = lb\<rparr>,
                      p_flags = fl,
                      p_witness = word_of_nat (length lb) # take (multisig_script_len fl) lb @
                                    replicate (signatures_len fl) 0,
                      p_temp = take 32 lb, p_message = replicate 32 7\<rparr>)"
  unfolding env_of_def by (rule toy_prepare [OF assms])

lemma main_env_of:
  assumes "get_flags lb = Inr fl" "length lb < 256"
  shows "main (env_of lb) =
           Some (verify_threshold (toy_env (ok (framed (take 20 lb))) (group_of [framed lb]))
                   lb (replicate 32 7) fl (take 32 lb))"
  using main_prepared [OF prepare_env_of [OF assms]] by (simp add: env_of_def)

lemma flags_ok: "get_flags lock_ok = Inr \<lparr>pubkeys_cnt = 2, threshold = 2, require_first_n = 1,
                     multisig_script_len = 70, signatures_len = 130\<rparr>"
  by (simp add: get_flags_def index_def lock_ok_def)

lemma flags_c1: "get_flags lock_c1 = Inr \<lparr>pubkeys_cnt = 3, threshold = 2, require_first_n = 1,
                     multisig_script_len = 103, signatures_len = 130\<rparr>"
  by (simp add: get_flags_def index_def lock_c1_def)

lemma flags_c5: "get_flags lock_c5 = Inr \<lparr>pubkeys_cnt = 2, threshold = 1, require_first_n = 0,
                     multisig_script_len = 70, signatures_len = 65\<rparr>"
  by (simp add: get_flags_def index_def lock_c5_def)

lemma flags_c8: "get_flags lock_c8 = Inr \<lparr>pubkeys_cnt = 2, threshold = 2, require_first_n = 0,
                     multisig_script_len = 70, signatures_len = 130\<rparr>"
  by (simp add: get_flags_def index_def lock_c8_def)

lemma flags_c8w: "get_flags lock_c8w = Inr \<lparr>pubkeys_cnt = 2, threshold = 2, require_first_n = 0,
                     multisig_script_len = 70, signatures_len = 130\<rparr>"
  by (simp add: get_flags_def index_def lock_c8w_def)

lemma flags_c9: "get_flags lock_c9 = Inr \<lparr>pubkeys_cnt = 3, threshold = 1, require_first_n = 0,
                     multisig_script_len = 103, signatures_len = 65\<rparr>"
  by (simp add: get_flags_def index_def lock_c9_def)

lemma flags_c10: "get_flags lock_c10 = Inr \<lparr>pubkeys_cnt = 2, threshold = 2, require_first_n = 1,
                     multisig_script_len = 70, signatures_len = 130\<rparr>"
  by (simp add: get_flags_def index_def lock_c10_def)

lemmas eval_defs = verify_threshold_def verify_signatures.simps verify_signature_def
  check_pubkeys.simps check_first_n.simps fetch_def index_def store_def memcmp_eq nth_append
  sig_by_def

lemma verify_ok:
  "verify_threshold (toy_env scr wit) lock_ok (replicate 32 7)
     \<lparr>pubkeys_cnt = 2, threshold = 2, require_first_n = 1,
      multisig_script_len = 70, signatures_len = 130\<rparr> (take 32 lock_ok) = Exit 0"
  by (simp add: eval_defs lock_ok_def)

lemma verify_c1:
  "verify_threshold (toy_env scr wit) lock_c1 (replicate 32 7)
     \<lparr>pubkeys_cnt = 3, threshold = 2, require_first_n = 1,
      multisig_script_len = 103, signatures_len = 130\<rparr> (take 32 lock_c1) = Fault OutOfBounds"
  by (simp add: eval_defs lock_c1_def)

lemma verify_c5:
  "verify_threshold (toy_env scr wit) lock_c5 (replicate 32 7)
     \<lparr>pubkeys_cnt = 2, threshold = 1, require_first_n = 0,
      multisig_script_len = 70, signatures_len = 65\<rparr> (take 32 lock_c5) = Fault OutOfBounds"
  by (simp add: eval_defs lock_c5_def)

lemma verify_c8:
  "verify_threshold (toy_env scr wit) lock_c8 (replicate 32 7)
     \<lparr>pubkeys_cnt = 2, threshold = 2, require_first_n = 0,
      multisig_script_len = 70, signatures_len = 130\<rparr> (take 32 lock_c8) = Exit 0"
  by (simp add: eval_defs lock_c8_def)

lemma verify_c9:
  "verify_threshold (toy_env scr wit) lock_c9 (replicate 32 7)
     \<lparr>pubkeys_cnt = 3, threshold = 1, require_first_n = 0,
      multisig_script_len = 103, signatures_len = 65\<rparr> (take 32 lock_c9) = Fault OutOfBounds"
  by (simp add: eval_defs lock_c9_def)

lemma prepare_ok: "prepare (env_of lock_ok) = Some (Inr p_ok)"
  by (simp add: prepare_env_of [OF flags_ok] p_ok_def)

lemma main_ok: "main (env_of lock_ok) = Some (Exit 0)"
  by (simp add: main_env_of [OF flags_ok] verify_ok)

lemma prepare_c8w: "prepare (env_of lock_c8w) = Some (Inr p_c8w)"
  by (simp add: prepare_env_of [OF flags_c8w] p_c8w_def)

lemma prepare_c10: "prepare (env_of lock_c10) = Some (Inr p_c10)"
  by (simp add: prepare_env_of [OF flags_c10] p_c10_def)

lemma candidate_c8:
  "candidate (env_of lock_c8) lock_c8 70 (replicate 32 7) 0 = Some (key 10)"
  "candidate (env_of lock_c8) lock_c8 70 (replicate 32 7) (Suc 0) = Some (key 10)"
  by (simp_all add: candidate_def env_of_def lock_c8_def sig_by_def Let_def nth_append)

lemma candidate_c8w:
  "candidate (env_of lock_c8w) lock_c8w 70 (replicate 32 7) 0 = Some (key 10)"
  "candidate (env_of lock_c8w) lock_c8w 70 (replicate 32 7) (Suc 0) = Some (key 10)"
  by (simp_all add: candidate_def env_of_def lock_c8w_def sig_by_def Let_def nth_append)

lemma pubkey_at_c8: "pubkey_at lock_c8 0 = key 10" "pubkey_at lock_c8 (Suc 0) = key 10"
  by (simp_all add: pubkey_at_def lock_c8_def)

lemma pubkey_at_c8w: "pubkey_at lock_c8w 0 = key 10" "pubkey_at lock_c8w (Suc 0) = key 11"
  by (simp_all add: pubkey_at_def lock_c8w_def)

section \<open>The claims\<close>

text \<open>
  C1. The claim: for every candidate the scan over the public key indices selects the
  first index whose match state is false and whose key equals the candidate, and the
  call accepts iff the first \<open>require_first_n\<close> keys are matched.
  The code keeps the match state in \<open>used_signatures\<close>, an array of \<open>threshold\<close>
  elements, and scans up to \<open>pubkeys_cnt\<close>. In the scenario of the design document
  (three keys A, B, C, two signatures required, the first key mandatory, signatures by
  C and then by A) the claim selects index 2 for the first signature and accepts; the
  code reads \<open>used_signatures[2]\<close>, outside the array of 2 elements.
  Inside the array the scan is as claimed: \<open>check_pubkeys_first\<close>,
  \<open>check_pubkeys_none\<close>.
\<close>

theorem C1_scan_out_of_bounds: "main (env_of lock_c1) = Some (Fault OutOfBounds)"
  by (simp add: main_env_of [OF flags_c1] verify_c1)

text \<open>
  C2. For lock bytes of at least 4 bytes, with N, M, R the values of bytes 3, 2 and 1:
  the parser fails with \<open>ERROR_INVALID_PUBKEYS_CNT\<close> when N = 0; otherwise with
  \<open>ERROR_INVALID_THRESHOLD\<close> when M > N; otherwise, with M = 0 read as N, with
  \<open>ERROR_INVALID_REQUIRE_FIRST_N\<close> when R > M; otherwise with \<open>ERROR_WITNESS_LEN\<close>
  unless the length is exactly 4 + 33 N + 65 M; otherwise it succeeds. The
  checks are made in this order.
\<close>

theorem C2_get_flags_order:
  fixes lb :: "byte list"
  assumes "FLAGS_SIZE \<le> length lb"
  shows "get_flags lb =
     (let N = unat (lb ! 3); M = unat (lb ! 2); R = unat (lb ! 1);
          M' = (if M = 0 then N else M)
      in if N = 0 then Inl (Exit ERROR_INVALID_PUBKEYS_CNT)
         else if N < M then Inl (Exit ERROR_INVALID_THRESHOLD)
         else if M' < R then Inl (Exit ERROR_INVALID_REQUIRE_FIRST_N)
         else if length lb \<noteq> FLAGS_SIZE + PUBKEY_SIZE * N + SIGNATURE_SIZE * M'
           then Inl (Exit ERROR_WITNESS_LEN)
         else Inr \<lparr>pubkeys_cnt = lb ! 3,
                   threshold = (if lb ! 2 = 0 then lb ! 3 else lb ! 2),
                   require_first_n = lb ! 1,
                   multisig_script_len = FLAGS_SIZE + PUBKEY_SIZE * N,
                   signatures_len = SIGNATURE_SIZE * M'\<rparr>)"
  using assms
  by (auto simp: get_flags_def index_def Let_def unat_eq_0 word_less_nat_alt word_le_nat_alt
        not_less)

text \<open>C2, at one input for each of the five outcomes.\<close>

theorem C2_get_flags_order_witness:
  "get_flags [0, 0, 0, 0] = Inl (Exit ERROR_INVALID_PUBKEYS_CNT) \<and>
   get_flags [0, 0, 3, 2] = Inl (Exit ERROR_INVALID_THRESHOLD) \<and>
   get_flags [0, 3, 0, 2] = Inl (Exit ERROR_INVALID_REQUIRE_FIRST_N) \<and>
   get_flags [0, 1, 1, 2] = Inl (Exit ERROR_WITNESS_LEN) \<and>
   get_flags lock_ok = Inr \<lparr>pubkeys_cnt = 2, threshold = 2, require_first_n = 1,
                            multisig_script_len = 70, signatures_len = 130\<rparr>"
  using nth_lock_ok C2_get_flags_order [of "[0, 0, 0, 0]"] C2_get_flags_order [of "[0, 0, 3, 2]"]
    C2_get_flags_order [of "[0, 3, 0, 2]"] C2_get_flags_order [of "[0, 1, 1, 2]"]
    C2_get_flags_order [of lock_ok]
  by simp

text \<open>
  C3. The claim: the message is the hash of the transaction hash, the first witness
  with its signatures set to zero, and every further witness of the group.
  The code loads every further witness into \<open>temp\<close>, an array of \<open>TEMP_SIZE\<close> = 1024
  bytes, while telling the host that \<open>MAX_WITNESS_SIZE\<close> = 32768 bytes are available.
  With a second witness of 1025 bytes the host writes past the end of \<open>temp\<close>.
  For further witnesses of at most 1024 bytes the message is as claimed:
  \<open>prepare_sign_message_digest\<close>.
\<close>

theorem C3_temp_overflow: "main env_c3 = Some (Fault OutOfBounds)"
proof -
  have a: "length (take 20 lock_ok) = BLAKE160_SIZE" by simp
  have d: "digest_other_witnesses env_c3 ctx temp (Suc 0) = Some (Inl (Fault OutOfBounds))"
    for ctx temp
    by (rule digest_other_witnesses_overflow) (simp add: env_c3_def group_of_def ok_def)
  have ps: "prepare_sign_message env_c3 temp (replicate 32 7)
              \<lparr>witness = framed lock_ok, witness_len = 201,
               lock_pos = \<lparr>ptr = Suc 0, psize = 200\<rparr>, lock_bytes = lock_ok\<rparr>
              \<lparr>pubkeys_cnt = 2, threshold = 2, require_first_n = 1,
               multisig_script_len = 70, signatures_len = 130\<rparr> = Some (Inl (Fault OutOfBounds))"
    for temp
    by (simp add: prepare_sign_message_def fetch_def memset_def framed_def d)
  have "prepare env_c3 = Some (Inl (Fault OutOfBounds))"
    using toy_load_args [OF a, of "group_of [framed lock_ok, replicate 1025 0]"]
      toy_load_witness [of lock_ok "ok (framed (take 20 lock_ok))" "[replicate 1025 0]"]
      toy_check_script_hash [OF flags_ok, of "ok (framed (take 20 lock_ok))"
        "group_of [framed lock_ok, replicate 1025 0]"]
      toy_load_tx_hash [of "ok (framed (take 20 lock_ok))"
        "group_of [framed lock_ok, replicate 1025 0]"]
    by (simp add: prepare_def env_c3_def [symmetric] flags_ok ps)
  then show ?thesis
    by (simp add: main_def)
qed

text \<open>
  C4. For validated lock bytes, the fingerprint check hashes exactly the policy prefix
  (the first 4 + 33 N bytes, the signatures excluded) to 32 bytes and compares
  the first 20 bytes of the hash with the 20 bytes of the script argument: it fails
  with \<open>ERROR_MULTSIG_SCRIPT_HASH\<close> when they differ and succeeds otherwise, leaving
  the hash in \<open>temp\<close>.
\<close>

theorem C4_fingerprint:
  assumes "get_flags lb = Inr fl"
    and "ptr args_pos + BLAKE160_SIZE \<le> length script"
    and "length script \<le> MAX_SCRIPT_SIZE"
    and "length (blake2b_final e (blake2b_update e (blake2b_init e BLAKE2B_BLOCK_SIZE)
            (take (FLAGS_SIZE + PUBKEY_SIZE * unat (lb ! 3)) lb)) BLAKE2B_BLOCK_SIZE)
         = BLAKE2B_BLOCK_SIZE"
  shows "check_script_hash e temp script args_pos lb (multisig_script_len fl) =
           (let policy = take (FLAGS_SIZE + PUBKEY_SIZE * unat (lb ! 3)) lb;
                h = blake2b_final e (blake2b_update e (blake2b_init e BLAKE2B_BLOCK_SIZE) policy)
                      BLAKE2B_BLOCK_SIZE
            in if take BLAKE160_SIZE h = take BLAKE160_SIZE (drop (ptr args_pos) script)
               then Inr (h @ drop BLAKE2B_BLOCK_SIZE temp)
               else Inl (Exit ERROR_MULTSIG_SCRIPT_HASH))"
proof -
  note fl = get_flags_InrD [OF assms(1)]
  let ?policy = "take (FLAGS_SIZE + PUBKEY_SIZE * unat (lb ! 3)) lb"
  let ?h = "blake2b_final e (blake2b_update e (blake2b_init e BLAKE2B_BLOCK_SIZE) ?policy)
              BLAKE2B_BLOCK_SIZE"
  have msl: "multisig_script_len fl = FLAGS_SIZE + PUBKEY_SIZE * unat (lb ! 3)"
    using fl(2,5) by simp
  have f1: "fetch (length lb) lb 0 (multisig_script_len fl) = Inr ?policy"
    using fl(7) msl by (simp add: fetch_def)
  have f2: "store TEMP_SIZE ?h temp = Inr (?h @ drop BLAKE2B_BLOCK_SIZE temp)"
    using assms(4) by (simp add: store_def)
  have f3: "fetch MAX_SCRIPT_SIZE script (ptr args_pos) BLAKE160_SIZE =
              Inr (take BLAKE160_SIZE (drop (ptr args_pos) script))"
    using assms(2,3) by (simp add: fetch_def)
  have f4: "fetch TEMP_SIZE (?h @ drop BLAKE2B_BLOCK_SIZE temp) 0 BLAKE160_SIZE =
              Inr (take BLAKE160_SIZE ?h)"
    using assms(4) by (simp add: fetch_def)
  have len: "length (take BLAKE160_SIZE (drop (ptr args_pos) script)) =
               length (take BLAKE160_SIZE ?h)"
    using assms(2,4) by simp
  show ?thesis
    unfolding check_script_hash_def Let_def f1 f2 f3 f4 sum.case
    using memcmp_eq [OF len] msl by auto
qed

text \<open>C4, at a matching and at a differing script argument.\<close>

theorem C4_fingerprint_witness:
  "check_script_hash (env_of lock_ok) [] (framed (take 20 lock_ok)) \<lparr>ptr = 1, psize = 20\<rparr>
     lock_ok 70 = Inr (take 32 lock_ok) \<and>
   check_script_hash (env_of lock_ok) [] (framed (9 # replicate 19 0)) \<lparr>ptr = 1, psize = 20\<rparr>
     lock_ok 70 = Inl (Exit ERROR_MULTSIG_SCRIPT_HASH)"
proof -
  have t: "take 20 lock_ok \<noteq> 9 # replicate 19 0"
    by (simp add: lock_ok_def)
  show ?thesis
    using C4_fingerprint [OF flags_ok, of "\<lparr>ptr = 1, psize = 20\<rparr>" "framed (take 20 lock_ok)"
            "env_of lock_ok" "[]"]
      C4_fingerprint [OF flags_ok, of "\<lparr>ptr = 1, psize = 20\<rparr>" "framed (9 # replicate 19 0)"
            "env_of lock_ok" "[]"] t
    by (simp add: env_of_def framed_def min_def nth_lock_ok)
qed

text \<open>
  C5. The claim: every access to the match state during the scan is below the
  allocated size. The code allocates \<open>threshold\<close> elements and scans up to
  \<open>pubkeys_cnt\<close>: with two keys A and B, one signature required and a signature by B,
  the scan passes index 0 (A is not the candidate) and reads \<open>used_signatures[1]\<close>,
  outside the array of 1 element.
\<close>

theorem C5_used_signatures_overrun: "main (env_of lock_c5) = Some (Fault OutOfBounds)"
  by (simp add: main_env_of [OF flags_c5] verify_c5)

text \<open>
  C6. The claim: the signatures are set to zero in a private copy, and the witness
  bytes the host returned are unchanged after the digest is built. In the code the
  \<open>memset\<close> goes through \<open>lock_bytes_res.pos.ptr\<close>, which points into the \<open>witness\<close>
  array the host filled: for \<open>lock_ok\<close> that array differs from what the host
  returned once the message is prepared.
\<close>

theorem C6_private_copy_counterexample:
  "prepare (env_of lock_ok) = Some (Inr p_ok) \<and>
   stored (ckb_load_witness (env_of lock_ok) MAX_WITNESS_SIZE 0) = framed lock_ok \<and>
   p_witness p_ok \<noteq> framed lock_ok"
proof -
  have "take 70 lock_ok @ replicate 130 0 \<noteq> lock_ok"
    by (simp add: lock_ok_def sig_by_def key_def replicate_neq_Cons)
  then show ?thesis
    by (simp add: prepare_ok) (simp add: p_ok_def env_of_def group_of_def ok_def framed_def)
qed

text \<open>
  C6, as the code has it. When \<open>main\<close> reaches the verification of the signatures:
  \<open>lock_bytes\<close>, the copy taken before, still holds the bytes the host returned at the
  lock's position; the \<open>witness\<close> array holds the host's bytes with the signature
  area set to zero and nothing else changed; and the flags and the fingerprint check
  were computed from \<open>lock_bytes\<close>.
\<close>

theorem C6_zeroing_in_place:
  assumes "prepare e = Some (Inr p)"
  shows "lock_bytes (p_first p) =
           take (psize (lock_pos (p_first p)))
             (drop (ptr (lock_pos (p_first p))) (stored (ckb_load_witness e MAX_WITNESS_SIZE 0))) \<and>
         p_witness p =
           take (ptr (lock_pos (p_first p)) + multisig_script_len (p_flags p))
             (stored (ckb_load_witness e MAX_WITNESS_SIZE 0)) @
           replicate (signatures_len (p_flags p)) 0 @
           drop (ptr (lock_pos (p_first p)) + multisig_script_len (p_flags p) +
                   signatures_len (p_flags p))
             (stored (ckb_load_witness e MAX_WITNESS_SIZE 0)) \<and>
         get_flags (lock_bytes (p_first p)) = Inr (p_flags p) \<and>
         (\<exists>script args_pos temp1.
            load_args e = Inr (script, args_pos) \<and>
            check_script_hash e [] script args_pos (lock_bytes (p_first p))
              (multisig_script_len (p_flags p)) = Inr temp1)"
proof -
  from prepare_InrD [OF assms] obtain script args_pos temp1 tx_hash where
    la: "load_args e = Inr (script, args_pos)"
    and lw: "load_witness e = Inr (p_first p)"
    and cs: "check_script_hash e [] script args_pos (lock_bytes (p_first p))
               (multisig_script_len (p_flags p)) = Inr temp1"
    by blast
  note W = load_witness_InrD [OF lw]
  note L = prepared_layout [OF assms]
  show ?thesis
    using W(6) L(5) L(1) la cs by blast
qed

text \<open>C6 as the code has it, for \<open>lock_ok\<close>.\<close>

theorem C6_zeroing_in_place_witness:
  "lock_bytes (p_first p_ok) = lock_ok \<and>
   p_witness p_ok = 200 # take 70 lock_ok @ replicate 130 0 \<and>
   get_flags lock_ok = Inr (p_flags p_ok)"
  using C6_zeroing_in_place [OF prepare_ok]
  by (simp add: p_ok_def)

text \<open>
  C7. The claim: a witness or script blob of more than 32 KiB is rejected with
  \<open>ERROR_SYSCALL\<close> before it is parsed. The code offers the host 32768 bytes and
  tests the return code only (\<open>syscall_error_by_return_code\<close>): it never compares the
  length the host reports with the maximum. In \<open>env_c7\<close> the script argument is the
  fingerprint of the policy and the host reports a first witness of 40000 bytes, of
  which it writes the 32768 that fit. The lock is extracted and its flags are parsed,
  the fingerprint matches, and the digest then reads \<open>witness_len\<close> = 40000 bytes from
  the \<open>witness\<close> array of 32768 bytes (line 166).
\<close>

theorem C7_oversize_witness_overread:
  "MAX_WITNESS_SIZE < len_out (ckb_load_witness env_c7 MAX_WITNESS_SIZE 0) \<and>
   load_witness env_c7 =
     Inr \<lparr>witness = framed lock_ok @ replicate 32567 0, witness_len = 40000,
          lock_pos = \<lparr>ptr = 1, psize = 200\<rparr>, lock_bytes = lock_ok\<rparr> \<and>
   main env_c7 = Some (Fault OutOfBounds)"
proof -
  have a: "length (take 20 lock_ok) = BLAKE160_SIZE" by simp
  have la: "load_args env_c7 = Inr (framed (take 20 lock_ok), \<lparr>ptr = Suc 0, psize = 20\<rparr>)"
    unfolding env_c7_def using toy_load_args [OF a] by simp
  have lw: "load_witness env_c7 =
              Inr \<lparr>witness = framed lock_ok @ replicate 32567 0, witness_len = 40000,
                   lock_pos = \<lparr>ptr = Suc 0, psize = 200\<rparr>, lock_bytes = lock_ok\<rparr>"
    by (simp add: load_witness_def extract_witness_lock_def env_c7_def framed_def
          store_def fetch_def)
  have cs: "check_script_hash env_c7 [] (framed (take 20 lock_ok))
              \<lparr>ptr = Suc 0, psize = 20\<rparr> lock_ok 70 = Inr (take 32 lock_ok)"
    unfolding env_c7_def using toy_check_script_hash [OF flags_ok] by simp
  have lt: "load_tx_hash env_c7 = Inr (replicate 32 7)"
    unfolding env_c7_def by (rule toy_load_tx_hash)
  have ps: "prepare_sign_message env_c7 temp (replicate 32 7)
              \<lparr>witness = framed lock_ok @ replicate 32567 0, witness_len = 40000,
               lock_pos = \<lparr>ptr = Suc 0, psize = 200\<rparr>, lock_bytes = lock_ok\<rparr>
              \<lparr>pubkeys_cnt = 2, threshold = 2, require_first_n = 1,
               multisig_script_len = 70, signatures_len = 130\<rparr> = Some (Inl (Fault OutOfBounds))"
    for temp
    by (simp add: prepare_sign_message_def fetch_def memset_def framed_def)
  have "prepare env_c7 = Some (Inl (Fault OutOfBounds))"
    by (simp add: prepare_def la lw flags_ok cs lt ps)
  then show ?thesis
    by (simp add: main_def lw) (simp add: env_c7_def)
qed

text \<open>
  C8. The claim: when all \<open>threshold \<ge> 2\<close> signatures recover to one and the same
  policy key, the call is rejected with \<open>ERROR_VERIFICATION\<close>. The code does not
  require the keys of a policy to be distinct: with the policy (A, A), two signatures
  required and two signatures by A, the second signature matches the second entry and
  the call is accepted.
\<close>

theorem C8_duplicated_policy_key_counterexample:
  "get_flags lock_c8 =
     Inr \<lparr>pubkeys_cnt = 2, threshold = 2, require_first_n = 0,
          multisig_script_len = 70, signatures_len = 130\<rparr> \<and>
   candidate (env_of lock_c8) lock_c8 70 (replicate 32 7) 0 = Some (key 10) \<and>
   candidate (env_of lock_c8) lock_c8 70 (replicate 32 7) 1 = Some (key 10) \<and>
   pubkey_at lock_c8 0 = key 10 \<and>
   main (env_of lock_c8) = Some (Exit 0)"
  by (simp add: candidate_c8 pubkey_at_c8 flags_c8 main_env_of [OF flags_c8] verify_c8)

text \<open>
  C8, as the code has it. When the candidate key occurs at most once among the keys of
  the policy and \<open>threshold = pubkeys_cnt \<ge> 2\<close> (so that the scan stays inside
  \<open>used_signatures\<close>), signatures that all recover to this candidate are rejected
  with \<open>ERROR_VERIFICATION\<close>.
\<close>

theorem C8_duplicate_signatures_rejected:
  assumes "prepare e = Some (Inr p)"
    and "secp256k1_initialize e = 0"
    and "threshold (p_flags p) = pubkeys_cnt (p_flags p)"
    and "2 \<le> unat (threshold (p_flags p))"
    and "length (p_message p) = BLAKE2B_BLOCK_SIZE"
    and "\<forall>i < unat (threshold (p_flags p)).
           candidate e (lock_bytes (p_first p)) (multisig_script_len (p_flags p))
             (p_message p) i = Some c"
    and "length c = PUBKEY_SIZE"
    and "\<forall>j k. j < unat (pubkeys_cnt (p_flags p)) \<and> k < unat (pubkeys_cnt (p_flags p)) \<and>
               pubkey_at (lock_bytes (p_first p)) j = c \<and>
               pubkey_at (lock_bytes (p_first p)) k = c \<longrightarrow> j = k"
  shows "main e = Some (Exit ERROR_VERIFICATION)"
proof -
  have "get_flags (lock_bytes (p_first p)) = Inr (p_flags p)"
    using prepared_layout(1) [OF assms(1)] .
  from verify_threshold_duplicates [OF this assms(2-8)]
  show ?thesis
    by (simp add: main_prepared [OF assms(1)])
qed

text \<open>C8 as the code has it: the policy (A, B) with two signatures by A.\<close>

theorem C8_duplicate_signatures_rejected_witness:
  "main (env_of lock_c8w) = Some (Exit ERROR_VERIFICATION)"
proof -
  have c: "\<forall>i < unat (threshold (p_flags p_c8w)).
             candidate (env_of lock_c8w) (lock_bytes (p_first p_c8w))
               (multisig_script_len (p_flags p_c8w)) (p_message p_c8w) i = Some (key 10)"
    by (simp add: p_c8w_def less_two candidate_c8w)
  have o: "\<forall>j k. j < unat (pubkeys_cnt (p_flags p_c8w)) \<and> k < unat (pubkeys_cnt (p_flags p_c8w)) \<and>
               pubkey_at (lock_bytes (p_first p_c8w)) j = key 10 \<and>
               pubkey_at (lock_bytes (p_first p_c8w)) k = key 10 \<longrightarrow> j = k"
    by (auto simp: p_c8w_def less_two pubkey_at_c8w)
  show ?thesis
    by (rule C8_duplicate_signatures_rejected [OF prepare_c8w _ _ _ _ c _ o])
       (simp_all add: p_c8w_def env_of_def)
qed

text \<open>
  C9. The claim: the status code is a function of the inputs. With three keys A, B, C,
  one signature required and a signature by C, the scan passes index 0 and goes on to
  \<open>used_signatures[1]\<close> and \<open>used_signatures[2]\<close>, outside the array of 1 element
  (the overrun of C1 and C5): what the run returns then depends on the bytes that
  follow the array, which are no input of the call. The run has no defined status
  (first statement). The loop over the signatures and the loop over the first
  \<open>require_first_n\<close> keys, run on an array that continues with the bytes 0, 0,
  accept; run on an array that continues with the bytes 0, 1, they end with
  \<open>ERROR_VERIFICATION\<close>.
\<close>

theorem C9_status_undefined:
  "main (env_of lock_c9) = Some (Fault OutOfBounds) \<and>
   (case verify_signatures (env_of lock_c9) lock_c9 (replicate 32 7)
           \<lparr>pubkeys_cnt = 3, threshold = 1, require_first_n = 0,
            multisig_script_len = 103, signatures_len = 65\<rparr> (take 32 lock_c9) ([0] @ [0, 0]) 0 of
      Inl f \<Rightarrow> f
    | Inr (temp, used) \<Rightarrow> check_first_n used 0 0) = Exit 0 \<and>
   (case verify_signatures (env_of lock_c9) lock_c9 (replicate 32 7)
           \<lparr>pubkeys_cnt = 3, threshold = 1, require_first_n = 0,
            multisig_script_len = 103, signatures_len = 65\<rparr> (take 32 lock_c9) ([0] @ [0, 1]) 0 of
      Inl f \<Rightarrow> f
    | Inr (temp, used) \<Rightarrow> check_first_n used 0 0) = Exit ERROR_VERIFICATION"
  (is "?m \<and> ?a \<and> ?b")
proof -
  have m: ?m
    by (simp add: main_env_of [OF flags_c9] verify_c9)
  have a: ?a
    unfolding env_of_def by (simp add: eval_defs lock_c9_def)
  have b: ?b
    unfolding env_of_def by (simp add: eval_defs lock_c9_def)
  show ?thesis
    using m a b by (intro conjI)
qed

text \<open>
  C10. When \<open>main\<close> reaches the verification of the signatures, it verifies them on
  \<open>lock_bytes\<close>, the copy taken before the digest. For signature \<open>i\<close>: the 64
  bytes and the recovery id read from \<open>lock_bytes\<close> are the bytes the host returned at
  that place of the first witness, although the 65 bytes at that place of the
  \<open>witness\<close> array are zero by then; round \<open>i\<close> of the loop passes exactly these
  bytes of the host to \<open>secp256k1_parse_compact\<close> and goes on with what it returns;
  and when the loop reaches round \<open>i\<close>, \<open>main\<close> returns what this round and the
  rest of the loop give, \<open>ERROR_SECP_PARSE_SIGNATURE\<close> when the bytes of the host do
  not parse.
\<close>

theorem C10_signatures_from_copy:
  fixes e :: "('h, 's, 'p) env" and p :: prepared and i :: nat
  defines "host \<equiv> stored (ckb_load_witness e MAX_WITNESS_SIZE 0)"
    and "lb \<equiv> lock_bytes (p_first p)"
    and "fl \<equiv> p_flags p"
    and "at \<equiv> ptr (lock_pos (p_first p)) + multisig_script_len (p_flags p) + i * SIGNATURE_SIZE"
  assumes "prepare e = Some (Inr p)"
    and "i < unat (threshold (p_flags p))"
  shows "main e = Some (verify_threshold e lb (p_message p) fl (p_temp p)) \<and>
         fetch (length lb) lb (multisig_script_len fl + i * SIGNATURE_SIZE) RECID_INDEX =
           Inr (take RECID_INDEX (drop at host)) \<and>
         index (length lb) lb (multisig_script_len fl + i * SIGNATURE_SIZE + RECID_INDEX) =
           Inr (host ! (at + RECID_INDEX)) \<and>
         take SIGNATURE_SIZE (drop at (p_witness p)) = replicate SIGNATURE_SIZE 0 \<and>
         verify_signature e lb (p_message p) fl temp used i =
           (let parsed = secp256k1_parse_compact e (take RECID_INDEX (drop at host))
                           (host ! (at + RECID_INDEX))
            in if fst parsed = 0 then Inl (Exit ERROR_SECP_PARSE_SIGNATURE)
               else
           (case fetch BLAKE2B_BLOCK_SIZE (p_message p) 0 BLAKE2B_BLOCK_SIZE of
              Inl f \<Rightarrow> Inl f
            | Inr msg \<Rightarrow>
                let recovered = secp256k1_recover e (snd parsed) msg in
                if fst recovered \<noteq> 1 then Inl (Exit ERROR_SECP_RECOVER_PUBKEY)
                else
                  let serialized = secp256k1_serialize e (snd recovered) PUBKEY_SIZE in
           (case store TEMP_SIZE (snd serialized) temp of
              Inl f \<Rightarrow> Inl f
            | Inr temp1 \<Rightarrow>
                if fst serialized \<noteq> 1 then Inl (Exit ERROR_SECP_SERIALIZE_PUBKEY)
                else
           (case check_pubkeys lb temp1 (unat (pubkeys_cnt fl)) used 0 of
              Inl f \<Rightarrow> Inl f
            | Inr (matched, used1) \<Rightarrow>
                if matched \<noteq> 1 then Inl (Exit ERROR_VERIFICATION)
                else Inr (temp1, used1))))) \<and>
         (secp256k1_initialize e = 0 \<and>
          rounds e lb (p_message p) fl (p_temp p) (replicate (unat (threshold fl)) 0) i =
            Inr (temp, used) \<longrightarrow>
            main e =
              Some (case verify_signature e lb (p_message p) fl temp used i of
                      Inl f \<Rightarrow> f
                    | Inr (temp1, used1) \<Rightarrow>
                   (case verify_signatures e lb (p_message p) fl temp1 used1 (i + 1) of
                      Inl f \<Rightarrow> f
                    | Inr (temp2, used2) \<Rightarrow> check_first_n used2 (unat (require_first_n fl)) 0)) \<and>
            (fst (secp256k1_parse_compact e (take RECID_INDEX (drop at host))
                    (host ! (at + RECID_INDEX))) = 0 \<longrightarrow>
               main e = Some (Exit ERROR_SECP_PARSE_SIGNATURE)))"
proof -
  let ?off = "ptr (lock_pos (p_first p))"
  let ?msl = "multisig_script_len (p_flags p)"
  let ?sl = "signatures_len (p_flags p)"
  note prep = assms(5) and i = assms(6)
  note L = prepared_layout [OF prep]
  note F = get_flags_InrD [OF L(1)]
  have "i * SIGNATURE_SIZE + SIGNATURE_SIZE \<le> SIGNATURE_SIZE * unat (threshold (p_flags p))"
    using i by simp
  then have b: "i * SIGNATURE_SIZE + SIGNATURE_SIZE \<le> ?sl"
    using F(6) by simp
  have f: "fetch (length lb) lb (multisig_script_len fl + i * SIGNATURE_SIZE) RECID_INDEX =
             Inr (take RECID_INDEX (drop at host))"
  proof -
    have "take RECID_INDEX (drop (?msl + i * SIGNATURE_SIZE) (take (?msl + ?sl) (drop ?off host)))
            = take RECID_INDEX (drop (?msl + i * SIGNATURE_SIZE) (drop ?off host))"
      using b by (intro take_drop_take) simp
    then show ?thesis
      using b L(3) by (simp add: fetch_def L(2) ac_simps host_def lb_def fl_def at_def)
  qed
  have x: "index (length lb) lb (multisig_script_len fl + i * SIGNATURE_SIZE + RECID_INDEX) =
             Inr (host ! (at + RECID_INDEX))"
  proof -
    have k: "?msl + i * SIGNATURE_SIZE + RECID_INDEX < ?msl + ?sl"
      using b by simp
    have "lb ! (?msl + i * SIGNATURE_SIZE + RECID_INDEX) =
            drop ?off host ! (?msl + i * SIGNATURE_SIZE + RECID_INDEX)"
      unfolding lb_def host_def L(2) using k by (rule nth_take_drop)
    also have "\<dots> = host ! (?off + ?msl + i * SIGNATURE_SIZE + RECID_INDEX)"
      using L(4) k by (simp add: add.assoc host_def)
    finally show ?thesis
      using k L(3) by (simp add: index_def lb_def fl_def at_def)
  qed
  have z: "take SIGNATURE_SIZE (drop at (p_witness p)) = replicate SIGNATURE_SIZE 0"
  proof -
    have len: "length (take (?off + ?msl) host) = ?off + ?msl"
      using L(4) by (simp add: host_def)
    have "drop (?off + ?msl + i * SIGNATURE_SIZE) (p_witness p) =
            replicate (?sl - i * SIGNATURE_SIZE) 0 @ drop (?off + ?msl + ?sl) host"
      unfolding L(5) using len b by (simp add: drop_append host_def)
    then show ?thesis
      using b by (simp add: min_def at_def)
  qed
  have v: "verify_signature e lb (p_message p) fl temp used i =
           (let parsed = secp256k1_parse_compact e (take RECID_INDEX (drop at host))
                           (host ! (at + RECID_INDEX))
            in if fst parsed = 0 then Inl (Exit ERROR_SECP_PARSE_SIGNATURE)
               else
           (case fetch BLAKE2B_BLOCK_SIZE (p_message p) 0 BLAKE2B_BLOCK_SIZE of
              Inl f \<Rightarrow> Inl f
            | Inr msg \<Rightarrow>
                let recovered = secp256k1_recover e (snd parsed) msg in
                if fst recovered \<noteq> 1 then Inl (Exit ERROR_SECP_RECOVER_PUBKEY)
                else
                  let serialized = secp256k1_serialize e (snd recovered) PUBKEY_SIZE in
           (case store TEMP_SIZE (snd serialized) temp of
              Inl f \<Rightarrow> Inl f
            | Inr temp1 \<Rightarrow>
                if fst serialized \<noteq> 1 then Inl (Exit ERROR_SECP_SERIALIZE_PUBKEY)
                else
           (case check_pubkeys lb temp1 (unat (pubkeys_cnt fl)) used 0 of
              Inl f \<Rightarrow> Inl f
            | Inr (matched, used1) \<Rightarrow>
                if matched \<noteq> 1 then Inl (Exit ERROR_VERIFICATION)
                else Inr (temp1, used1)))))" for temp used
    by (simp only: verify_signature_def Let_def f x sum.case)
  have m: "main e = Some (verify_threshold e lb (p_message p) fl (p_temp p))"
    using main_prepared [OF prep] by (simp add: lb_def fl_def)
  have r: "main e =
              Some (case verify_signature e lb (p_message p) fl temp used i of
                      Inl f \<Rightarrow> f
                    | Inr (temp1, used1) \<Rightarrow>
                   (case verify_signatures e lb (p_message p) fl temp1 used1 (i + 1) of
                      Inl f \<Rightarrow> f
                    | Inr (temp2, used2) \<Rightarrow> check_first_n used2 (unat (require_first_n fl)) 0))"
    if init: "secp256k1_initialize e = 0"
      and rd: "rounds e lb (p_message p) fl (p_temp p) (replicate (unat (threshold fl)) 0) i =
                 Inr (temp, used)"
  proof -
    have i': "i < unat (threshold fl)" "i \<le> unat (threshold fl)"
      using i by (simp_all add: fl_def)
    have "verify_signatures e lb (p_message p) fl (p_temp p)
            (replicate (unat (threshold fl)) 0) 0 =
          verify_signatures e lb (p_message p) fl temp used i"
      using verify_signatures_rounds [OF i'(2), of e lb "p_message p" "p_temp p"
              "replicate (unat (threshold fl)) 0"]
      by (simp add: rd)
    then show ?thesis
      unfolding m verify_threshold_def Let_def
      by (simp add: init verify_signatures_step [OF i'(1)] split: sum.splits prod.splits)
  qed
  have q: "main e = Some (Exit ERROR_SECP_PARSE_SIGNATURE)"
    if "secp256k1_initialize e = 0"
      and "rounds e lb (p_message p) fl (p_temp p) (replicate (unat (threshold fl)) 0) i =
             Inr (temp, used)"
      and "fst (secp256k1_parse_compact e (take RECID_INDEX (drop at host))
                    (host ! (at + RECID_INDEX))) = 0"
    using r [OF that(1,2)] that(3) by (simp add: v)
  show ?thesis
    using m f x z v r q by blast
qed

text \<open>
  C10, for the signatures of \<open>lock_ok\<close>, and for \<open>lock_c10\<close>, whose second
  signature has the recovery id 9: the run ends with \<open>ERROR_SECP_PARSE_SIGNATURE\<close>,
  while the \<open>witness\<close> array holds the recovery id 0 there, which would parse.
\<close>

theorem C10_signatures_from_copy_witness:
  "fetch 200 lock_ok 70 64 = Inr (take 64 (sig_by (key 11))) \<and>
   fetch 200 lock_ok 135 64 = Inr (take 64 (sig_by (key 10))) \<and>
   take 65 (drop 71 (p_witness p_ok)) = replicate 65 0 \<and>
   take 65 (drop 136 (p_witness p_ok)) = replicate 65 0 \<and>
   main (env_of lock_ok) = Some (Exit 0) \<and>
   stored (ckb_load_witness (env_of lock_c10) MAX_WITNESS_SIZE 0) ! 200 = 9 \<and>
   p_witness p_c10 ! 200 = 0 \<and>
   main (env_of lock_c10) = Some (Exit ERROR_SECP_PARSE_SIGNATURE)"
proof -
  have h: "stored (ckb_load_witness (env_of lock_ok) MAX_WITNESS_SIZE 0) = framed lock_ok"
    "stored (ckb_load_witness (env_of lock_c10) MAX_WITNESS_SIZE 0) = framed lock_c10"
    by (simp_all add: env_of_def group_of_def ok_def)
  have i: "0 < unat (threshold (p_flags p_ok))" "1 < unat (threshold (p_flags p_ok))"
    "1 < unat (threshold (p_flags p_c10))"
    by (simp_all add: p_ok_def p_c10_def)
  have s: "take 64 (drop 71 (framed lock_ok)) = take 64 (sig_by (key 11))"
    "take 64 (drop 136 (framed lock_ok)) = take 64 (sig_by (key 10))"
    "framed lock_c10 ! 200 = 9" "p_witness p_c10 ! 200 = 0"
    by (simp_all add: framed_def lock_ok_def lock_c10_def p_c10_def nth_append)
  have p: "lock_bytes (p_first p_ok) = lock_ok" "ptr (lock_pos (p_first p_ok)) = 1"
    "multisig_script_len (p_flags p_ok) = 70"
    "p_flags p_ok = \<lparr>pubkeys_cnt = 2, threshold = 2, require_first_n = 1,
                      multisig_script_len = 70, signatures_len = 130\<rparr>"
    "p_temp p_ok = take 32 lock_ok" "p_message p_ok = replicate 32 7"
    "lock_bytes (p_first p_c10) = lock_c10" "ptr (lock_pos (p_first p_c10)) = 1"
    "p_flags p_c10 = \<lparr>pubkeys_cnt = 2, threshold = 2, require_first_n = 1,
                      multisig_script_len = 70, signatures_len = 130\<rparr>"
    "p_temp p_c10 = take 32 lock_c10" "p_message p_c10 = replicate 32 7"
    by (simp_all add: p_ok_def p_c10_def)
  have two: "replicate 2 (0 :: byte) = [0, 0]"
    by (simp add: numeral_2_eq_2)
  have r: "rounds (env_of lock_ok) (lock_bytes (p_first p_ok)) (p_message p_ok) (p_flags p_ok)
             (p_temp p_ok) (replicate (unat (threshold (p_flags p_ok))) 0) 1 =
           Inr (key 11, [0, 1])"
    "rounds (env_of lock_c10) (lock_bytes (p_first p_c10)) (p_message p_c10) (p_flags p_c10)
             (p_temp p_c10) (replicate (unat (threshold (p_flags p_c10))) 0) 1 =
           Inr (key 11, [0, 1])"
    by (simp_all add: p env_of_def eval_defs lock_ok_def lock_c10_def two)
  have t: "secp256k1_initialize (env_of lb) = 0"
    "secp256k1_parse_compact (env_of lb) bs 9 = (0, bs)" for lb bs
    by (simp_all add: env_of_def)
  note T0 = C10_signatures_from_copy [OF prepare_ok i(1), of "[]" "[]"]
  note T1 = C10_signatures_from_copy [OF prepare_ok i(2), of "key 11" "[0, 1]"]
  note T2 = C10_signatures_from_copy [OF prepare_c10 i(3), of "key 11" "[0, 1]"]
  note R1 = T1 [THEN conjunct2, THEN conjunct2, THEN conjunct2, THEN conjunct2, THEN conjunct2,
                THEN mp, OF conjI [OF t(1) r(1)]]
  note R2 = T2 [THEN conjunct2, THEN conjunct2, THEN conjunct2, THEN conjunct2, THEN conjunct2,
                THEN mp, OF conjI [OF t(1) r(2)]]
  have f0: "fetch 200 lock_ok 70 64 = Inr (take 64 (sig_by (key 11)))"
    using T0 [THEN conjunct2, THEN conjunct1] by (simp add: h p s)
  have f1: "fetch 200 lock_ok 135 64 = Inr (take 64 (sig_by (key 10)))"
    using T1 [THEN conjunct2, THEN conjunct1] by (simp add: h p s)
  have z0: "take 65 (drop 71 (p_witness p_ok)) = replicate 65 0"
    using T0 [THEN conjunct2, THEN conjunct2, THEN conjunct2, THEN conjunct1] by (simp add: p)
  have z1: "take 65 (drop 136 (p_witness p_ok)) = replicate 65 0"
    using T1 [THEN conjunct2, THEN conjunct2, THEN conjunct2, THEN conjunct1] by (simp add: p)
  have m1: "main (env_of lock_ok) = Some (Exit 0)"
    using R1 [THEN conjunct1]
    by (simp add: p env_of_def eval_defs lock_ok_def)
  have m2: "main (env_of lock_c10) = Some (Exit ERROR_SECP_PARSE_SIGNATURE)"
    using R2 [THEN conjunct2] by (simp add: h p s t)
  show ?thesis
    using f0 f1 z0 z1 m1 m2 s(3,4) by (simp add: h)
qed

end
